theory Spec2Isabelle
  imports Complex_Main "HOL-Library.Word"
begin

section \<open>The on-chain executor: contracts/BatchTransfer.sol\<close>

subsection \<open>Ledger state, failures and events\<close>

type_synonym address = "160 word"
type_synonym uint256 = "256 word"

text \<open>
  A call of the contract either commits a new ledger state or fails. \<open>Revert\<close> carries
  the message of the failing \<open>require\<close>; \<open>Panic\<close> carries the Solidity panic code
  (17 = 0x11 for checked-arithmetic overflow, 50 = 0x32 for an array index out of
  range); \<open>InsufficientFunds\<close> is the ledger refusing a call whose attached value the caller
  does not own; \<open>TokenCallFailed\<close> is a call into a token contract that reverted (or, under
  \<open>SafeERC20\<close>, reported failure), which the executor propagates.
\<close>

datatype failure = Revert string | Panic nat | InsufficientFunds | TokenCallFailed

text \<open>The event \<open>MultiSendExecuted(sender, tokenAddress, totalAmount, recipientCount)\<close>.
  The recipient count is an array length, kept as a natural number.\<close>

record MultiSendExecuted =
  ev_sender :: address
  ev_tokenAddress :: address
  ev_totalAmount :: uint256
  ev_recipientCount :: nat

text \<open>
  The ledger as far as the contract can observe it: native balances (natural numbers: the
  supply of the native asset is far below \<open>2 ^ 256\<close>, so crediting never wraps), which
  accounts accept a plain value transfer (\<open>payable\<close>: every externally owned account does, a
  contract does when its receive function does not revert), the state of the token
  contracts \<open>'t\<close>, and the log of emitted events.
\<close>

record 't world =
  native :: "address \<Rightarrow> nat"
  payable :: "address \<Rightarrow> bool"
  token_state :: 't
  events :: "MultiSendExecuted list"

text \<open>
  The token contracts are foreign code (\<open>IERC20\<close> through \<open>SafeERC20\<close>), so their behaviour
  is a parameter: \<open>allowance\<close> answers the query \<open>IERC20(token).allowance(owner, spender)\<close>
  (\<open>None\<close> when the call itself reverts, for example when \<open>token\<close> has no code), and
  \<open>safeTransferFrom\<close> is \<open>IERC20(token).safeTransferFrom(from, to, amount)\<close> called by
  \<open>spender\<close>: \<open>None\<close> when the token reverts or returns false, the new token state otherwise.
\<close>

record 't erc20 =
  allowance :: "'t \<Rightarrow> address \<Rightarrow> address \<Rightarrow> address \<Rightarrow> uint256 option"
  safeTransferFrom :: "'t \<Rightarrow> address \<Rightarrow> address \<Rightarrow> address \<Rightarrow> address \<Rightarrow> uint256 \<Rightarrow> 't option"

text \<open>\<open>receive()\<close> and \<open>fallback()\<close>: both revert unconditionally.\<close>

definition receive :: "'t world \<Rightarrow> failure + 't world" where
  "receive w = Inl (Revert ''Direct ETH transfers not allowed'')"

definition fallback :: "'t world \<Rightarrow> failure + 't world" where
  "fallback w = Inl (Revert ''Direct ETH transfers not allowed'')"

text \<open>
  The low-level call \<open>to.call{value: amt}("")\<close> made by the contract at address \<open>this\<close>.
  It fails when the contract does not hold \<open>amt\<close>, when \<open>to\<close> is the contract itself (its
  own \<open>receive\<close> reverts) and when \<open>to\<close> does not accept value; otherwise it moves \<open>amt\<close>.
  A recipient that accepts is taken to do nothing else with the call.
\<close>

definition call_value :: "address \<Rightarrow> 't world \<Rightarrow> address \<Rightarrow> uint256 \<Rightarrow> 't world option" where
  "call_value this w to amt =
     (if native w this < unat amt then None
      else if to = this then (case receive w of Inl _ \<Rightarrow> None | Inr w' \<Rightarrow> Some w')
      else if \<not> payable w to then None
      else Some (w\<lparr>native := (native w)(this := native w this - unat amt,
                                          to := native w to + unat amt)\<rparr>))"

text \<open>The loop \<open>for (i = 0; i < amounts.length; i++) totalAmount += amounts[i]\<close>, in the
  checked arithmetic of Solidity 0.8: an overflow panics.\<close>

fun sum_amounts :: "uint256 \<Rightarrow> uint256 list \<Rightarrow> failure + uint256" where
  "sum_amounts totalAmount [] = Inr totalAmount"
| "sum_amounts totalAmount (a # as) =
     (if unat totalAmount + unat a < 2 ^ 256 then sum_amounts (totalAmount + a) as
      else Inl (Panic 17))"

subsection \<open>multiSendETH\<close>

text \<open>The transfer loop of \<open>multiSendETH\<close>. It runs over the indices of \<open>recipients\<close> and
  reads \<open>amounts\<close> at the same index, which panics when \<open>amounts\<close> is shorter.\<close>

fun eth_transfers :: "address \<Rightarrow> 't world \<Rightarrow> address list \<Rightarrow> uint256 list \<Rightarrow> failure + 't world" where
  "eth_transfers this w [] amounts = Inr w"
| "eth_transfers this w (r # rs) [] =
     (if r = 0 then Inl (Revert ''Invalid recipient address'') else Inl (Panic 50))"
| "eth_transfers this w (r # rs) (a # as) =
     (if r = 0 then Inl (Revert ''Invalid recipient address'')
      else (case call_value this w r a of
              None \<Rightarrow> Inl (Revert ''ETH transfer failed'')
            | Some w' \<Rightarrow> eth_transfers this w' rs as))"

text \<open>
  \<open>multiSendETH(recipients, amounts)\<close> called by \<open>msg_sender\<close> with \<open>msg_value\<close> attached, on
  the contract deployed at \<open>this\<close>. The ledger first moves the attached value from the
  caller to the contract, then the body runs.
\<close>

definition multiSendETH ::
  "address \<Rightarrow> address \<Rightarrow> uint256 \<Rightarrow> address list \<Rightarrow> uint256 list \<Rightarrow> 't world \<Rightarrow> failure + 't world" where
  "multiSendETH this msg_sender msg_value recipients amounts w =
     (if native w msg_sender < unat msg_value then Inl InsufficientFunds
      else
        let n1 = (native w)(msg_sender := native w msg_sender - unat msg_value);
            w1 = w\<lparr>native := n1(this := n1 this + unat msg_value)\<rparr>
        in
        if length recipients \<noteq> length amounts
        then Inl (Revert ''Recipients and amounts arrays must be the same length'')
        else if \<not> length recipients > 0
        then Inl (Revert ''Must provide at least one recipient'')
        else (case sum_amounts 0 amounts of
                Inl e \<Rightarrow> Inl e
              | Inr totalAmount \<Rightarrow>
                  if msg_value \<noteq> totalAmount
                  then Inl (Revert ''Sent ETH value must match total amount'')
                  else (case eth_transfers this w1 recipients amounts of
                          Inl e \<Rightarrow> Inl e
                        | Inr w2 \<Rightarrow>
                            Inr (w2\<lparr>events := events w2 @
                                   [\<lparr>ev_sender = msg_sender, ev_tokenAddress = 0,
                                     ev_totalAmount = totalAmount,
                                     ev_recipientCount = length recipients\<rparr>]\<rparr>))))"

text \<open>A transaction is atomic: a failing call leaves the ledger as it was, a successful one
  commits the state it computed.\<close>

definition transact :: "('t world \<Rightarrow> failure + 't world) \<Rightarrow> 't world \<Rightarrow> failure option \<times> 't world" where
  "transact f w = (case f w of Inl e \<Rightarrow> (Some e, w) | Inr w' \<Rightarrow> (None, w'))"

text \<open>What the entries of a call pay to the account \<open>a\<close>: the sum of \<open>amounts[i]\<close> over the
  positions \<open>i\<close> with \<open>recipients[i] = a\<close>.\<close>

definition paid_to :: "address \<Rightarrow> address list \<Rightarrow> uint256 list \<Rightarrow> nat" where
  "paid_to a recipients amounts =
     sum_list (map (\<lambda>(r, x). if r = a then unat x else 0) (zip recipients amounts))"

definition total_of :: "uint256 list \<Rightarrow> nat" where
  "total_of amounts = sum_list (map unat amounts)"

definition accepts_value :: "address \<Rightarrow> 't world \<Rightarrow> address \<Rightarrow> bool" where
  "accepts_value this w r \<longleftrightarrow> r \<noteq> this \<and> payable w r"

subsection \<open>multiSendToken\<close>

text \<open>The transfer loop of \<open>multiSendToken\<close>: each entry is validated, then
  \<open>erc20.safeTransferFrom(msg.sender, recipients[i], amounts[i])\<close> is called.\<close>

fun token_transfers ::
  "'t erc20 \<Rightarrow> address \<Rightarrow> address \<Rightarrow> address \<Rightarrow> 't world \<Rightarrow> address list \<Rightarrow> uint256 list
     \<Rightarrow> failure + 't world" where
  "token_transfers tk this msg_sender token w [] amounts = Inr w"
| "token_transfers tk this msg_sender token w (r # rs) [] =
     (if r = 0 then Inl (Revert ''Invalid recipient address'') else Inl (Panic 50))"
| "token_transfers tk this msg_sender token w (r # rs) (a # as) =
     (if r = 0 then Inl (Revert ''Invalid recipient address'')
      else if \<not> a > 0 then Inl (Revert ''Amount must be greater than 0'')
      else (case safeTransferFrom tk (token_state w) token this msg_sender r a of
              None \<Rightarrow> Inl TokenCallFailed
            | Some t' \<Rightarrow> token_transfers tk this msg_sender token (w\<lparr>token_state := t'\<rparr>) rs as))"

definition multiSendToken ::
  "'t erc20 \<Rightarrow> address \<Rightarrow> address \<Rightarrow> address \<Rightarrow> address list \<Rightarrow> uint256 list \<Rightarrow> 't world
     \<Rightarrow> failure + 't world" where
  "multiSendToken tk this msg_sender token recipients amounts w =
     (if \<not> token \<noteq> 0 then Inl (Revert ''Invalid token address'')
      else if length recipients \<noteq> length amounts
      then Inl (Revert ''Recipients and amounts arrays must be the same length'')
      else if \<not> length recipients > 0
      then Inl (Revert ''Must provide at least one recipient'')
      else (case sum_amounts 0 amounts of
              Inl e \<Rightarrow> Inl e
            | Inr totalAmount \<Rightarrow>
                (case allowance tk (token_state w) token msg_sender this of
                   None \<Rightarrow> Inl TokenCallFailed
                 | Some allowed \<Rightarrow>
                     if \<not> allowed \<ge> totalAmount
                     then Inl (Revert ''Insufficient token allowance'')
                     else (case token_transfers tk this msg_sender token w recipients amounts of
                             Inl e \<Rightarrow> Inl e
                           | Inr w2 \<Rightarrow>
                               Inr (w2\<lparr>events := events w2 @
                                      [\<lparr>ev_sender = msg_sender, ev_tokenAddress = token,
                                        ev_totalAmount = totalAmount,
                                        ev_recipientCount = length recipients\<rparr>]\<rparr>)))))"

subsection \<open>multiTokenTransfer\<close>

text \<open>The loop of \<open>multiTokenTransfer\<close>: per entry the two \<open>require\<close>s, the allowance query
  for that token compared with \<open>amounts[i]\<close>, the transfer, and the event.\<close>

fun multi_token_loop ::
  "'t erc20 \<Rightarrow> address \<Rightarrow> address \<Rightarrow> address \<Rightarrow> 't world \<Rightarrow> address list \<Rightarrow> uint256 list
     \<Rightarrow> failure + 't world" where
  "multi_token_loop tk this msg_sender recipient w [] amounts = Inr w"
| "multi_token_loop tk this msg_sender recipient w (t # ts) [] =
     (if t = 0 then Inl (Revert ''Invalid token address'') else Inl (Panic 50))"
| "multi_token_loop tk this msg_sender recipient w (t # ts) (a # as) =
     (if t = 0 then Inl (Revert ''Invalid token address'')
      else if \<not> a > 0 then Inl (Revert ''Amount must be greater than 0'')
      else (case allowance tk (token_state w) t msg_sender this of
              None \<Rightarrow> Inl TokenCallFailed
            | Some allowed \<Rightarrow>
                if \<not> allowed \<ge> a then Inl (Revert ''Insufficient token allowance'')
                else (case safeTransferFrom tk (token_state w) t this msg_sender recipient a of
                        None \<Rightarrow> Inl TokenCallFailed
                      | Some t' \<Rightarrow>
                          multi_token_loop tk this msg_sender recipient
                            (w\<lparr>token_state := t',
                               events := events w @
                                 [\<lparr>ev_sender = msg_sender, ev_tokenAddress = t,
                                   ev_totalAmount = a, ev_recipientCount = 1\<rparr>]\<rparr>)
                            ts as)))"

definition multiTokenTransfer ::
  "'t erc20 \<Rightarrow> address \<Rightarrow> address \<Rightarrow> address list \<Rightarrow> address \<Rightarrow> uint256 list \<Rightarrow> 't world
     \<Rightarrow> failure + 't world" where
  "multiTokenTransfer tk this msg_sender tokens recipient amounts w =
     (if length tokens \<noteq> length amounts
      then Inl (Revert ''Tokens and amounts arrays must be the same length'')
      else if \<not> length tokens > 0 then Inl (Revert ''Must provide at least one token'')
      else if \<not> recipient \<noteq> 0 then Inl (Revert ''Invalid recipient address'')
      else multi_token_loop tk this msg_sender recipient w tokens amounts)"

text \<open>The event that \<open>multiTokenTransfer\<close> emits for one entry.\<close>

definition token_event :: "address \<Rightarrow> address \<times> uint256 \<Rightarrow> MultiSendExecuted" where
  "token_event msg_sender = (\<lambda>(t, a).
     \<lparr>ev_sender = msg_sender, ev_tokenAddress = t, ev_totalAmount = a, ev_recipientCount = 1\<rparr>)"

text \<open>The token state reached after the transfers of a list of (token, amount) entries
  to \<open>recipient\<close> have gone through, in order.\<close>

fun state_after ::
  "'t erc20 \<Rightarrow> address \<Rightarrow> address \<Rightarrow> address \<Rightarrow> 't \<Rightarrow> (address \<times> uint256) list \<Rightarrow> 't" where
  "state_after tk this msg_sender recipient s [] = s"
| "state_after tk this msg_sender recipient s ((t, a) # xs) =
     (case safeTransferFrom tk s t this msg_sender recipient a of
        None \<Rightarrow> s
      | Some s' \<Rightarrow> state_after tk this msg_sender recipient s' xs)"

text \<open>An entry (token, amount) of \<open>multiTokenTransfer\<close> passes in the token state \<open>s\<close>: the
  token address and the amount are non-zero, the allowance of that token covers that
  amount, and the token carries out the transfer.\<close>

definition entry_passes ::
  "'t erc20 \<Rightarrow> address \<Rightarrow> address \<Rightarrow> address \<Rightarrow> 't \<Rightarrow> address \<Rightarrow> uint256 \<Rightarrow> bool" where
  "entry_passes tk this msg_sender recipient s t a \<longleftrightarrow>
     t \<noteq> 0 \<and> a \<noteq> 0 \<and>
     (case allowance tk s t msg_sender this of None \<Rightarrow> False | Some allowed \<Rightarrow> a \<le> allowed) \<and>
     safeTransferFrom tk s t this msg_sender recipient a \<noteq> None"

subsection \<open>A standard token ledger\<close>

text \<open>
  One instance of the token parameter, for concrete runs: the usual fungible-token ledger,
  where \<open>transferFrom\<close> needs the owner's balance and the spender's allowance to cover the
  amount and consumes both. Keys are (token, owner) and (token, owner, spender); an
  address below 16 has no code, so calls to it revert.
\<close>

record ledger =
  bal :: "address \<times> address \<Rightarrow> nat"
  allow :: "address \<times> address \<times> address \<Rightarrow> nat"

definition std_token :: "ledger erc20" where
  "std_token =
     \<lparr>allowance = (\<lambda>l token owner spender.
         if token < 16 then None else Some (of_nat (allow l (token, owner, spender)))),
      safeTransferFrom = (\<lambda>l token spender from to amt.
         if token < 16 \<or> to = 0 \<or> bal l (token, from) < unat amt
            \<or> allow l (token, from, spender) < unat amt
         then None
         else Some (l\<lparr>bal := (bal l)((token, from) := bal l (token, from) - unat amt,
                                   (token, to) := (if to = from then bal l (token, from)
                                                   else bal l (token, to) + unat amt)),
                     allow := (allow l)((token, from, spender) :=
                                 allow l (token, from, spender) - unat amt)\<rparr>))\<rparr>"

text \<open>A small ledger for concrete runs: account 1 owns 20 of the native asset and 100 of
  every token, and has approved the executor at address 100 for 10; account 9 refuses
  value transfers.\<close>

definition example_ledger :: ledger where
  "example_ledger =
     \<lparr>bal = (\<lambda>(t, owner). if owner = 1 then 100 else 0),
      allow = (\<lambda>(t, owner, spender). if owner = 1 \<and> spender = 100 then 10 else 0)\<rparr>"

definition example_world :: "ledger world" where
  "example_world =
     \<lparr>native = (\<lambda>a. if a = 1 then 20 else 0),
      payable = (\<lambda>a. a \<noteq> 9),
      token_state = example_ledger,
      events = []\<rparr>"

section \<open>The client: batchTransactions.js\<close>

subsection \<open>Errors, the ethers utilities and the batch state\<close>

text \<open>
  One constructor per \<open>throw new Error(...)\<close> of the source, carrying what the message
  interpolates; \<open>Thrown\<close> is an error raised by the ethers library or the node, with its
  message. The two \<open>catch\<close> blocks that rethrow with a prefix wrap the error they caught.
\<close>

datatype js_error =
    InvalidRecipientAddress string
  | InvalidTokenAddress string
  | ErrorAddingEth string
  | ErrorAddingErc20 string
  | ContractAddressRequired
  | ProviderUrlRequired
  | PrivateKeyRequired
  | NoTransactionsToEstimate
  | NoTransactionsToSend
  | InsufficientTokenBalance string
  | GasEstimationFailed js_error
  | FailedToSend js_error
  | Thrown string

text \<open>
  The pure utilities of the ethers library that the client calls; the library is not part
  of the repository, so they are parameters. \<open>parseUnits value decimals\<close> returns the
  message of the error it throws on malformed input; \<open>parseEther\<close> is \<open>parseUnits\<close> with
  18 decimals.
\<close>

record ethers =
  isAddress :: "string \<Rightarrow> bool"
  parseUnits :: "string \<Rightarrow> nat \<Rightarrow> string + int"
  formatEther :: "int \<Rightarrow> string"

definition parseEther :: "ethers \<Rightarrow> string \<Rightarrow> string + int" where
  "parseEther L v = parseUnits L v 18"

text \<open>The entries \<open>{to, value}\<close> and \<open>{to, value, decimals}\<close>, and \<open>transactionGroups\<close>. The
  object \<open>erc20\<close> is a list of (key, entries) pairs in the order the keys were created,
  which is the order \<open>for ... in\<close> and \<open>Object.keys\<close> visit them.\<close>

record eth_tx =
  eth_to :: string
  eth_value :: int

record erc20_tx =
  erc20_to :: string
  erc20_value :: int
  erc20_decimals :: nat

record transactionGroups =
  eth :: "eth_tx list"
  erc20 :: "(string \<times> erc20_tx list) list"

definition no_transactions :: transactionGroups where
  "no_transactions = \<lparr>eth = [], erc20 = []\<rparr>"

subsection \<open>addEthTransaction, addErc20Transaction, clearTransactions\<close>

definition addEthTransaction ::
  "ethers \<Rightarrow> string \<Rightarrow> string \<Rightarrow> transactionGroups \<Rightarrow> (js_error + bool) \<times> transactionGroups" where
  "addEthTransaction L to v s =
     (if \<not> isAddress L to then (Inl (InvalidRecipientAddress to), s)
      else (case parseEther L v of
              Inl msg \<Rightarrow> (Inl (ErrorAddingEth msg), s)
            | Inr valueInWei \<Rightarrow>
                (Inr True, s\<lparr>eth := eth s @ [\<lparr>eth_to = to, eth_value = valueInWei\<rparr>]\<rparr>)))"

text \<open>\<open>transactionGroups.erc20[tokenAddress].push(tx)\<close>.\<close>

fun push_to_group :: "string \<Rightarrow> erc20_tx \<Rightarrow> (string \<times> erc20_tx list) list \<Rightarrow> (string \<times> erc20_tx list) list" where
  "push_to_group k tx [] = []"
| "push_to_group k tx ((k', txs) # gs) =
     (if k' = k then (k', txs @ [tx]) # gs else (k', txs) # push_to_group k tx gs)"

text \<open>Inside the \<open>try\<close>, the source first creates the group when the key is absent, then
  parses the amount, then pushes.\<close>

definition addErc20Transaction ::
  "ethers \<Rightarrow> string \<Rightarrow> string \<Rightarrow> string \<Rightarrow> nat \<Rightarrow> transactionGroups
     \<Rightarrow> (js_error + bool) \<times> transactionGroups" where
  "addErc20Transaction L tokenAddress to v decimals s =
     (if \<not> isAddress L tokenAddress then (Inl (InvalidTokenAddress tokenAddress), s)
      else if \<not> isAddress L to then (Inl (InvalidRecipientAddress to), s)
      else
        let s1 = (if map_of (erc20 s) tokenAddress = None
                  then s\<lparr>erc20 := erc20 s @ [(tokenAddress, [])]\<rparr> else s)
        in (case parseUnits L v decimals of
              Inl msg \<Rightarrow> (Inl (ErrorAddingErc20 msg), s1)
            | Inr valueWithDecimals \<Rightarrow>
                (Inr True,
                 s1\<lparr>erc20 := push_to_group tokenAddress
                      \<lparr>erc20_to = to, erc20_value = valueWithDecimals, erc20_decimals = decimals\<rparr>
                      (erc20 s1)\<rparr>)))"

definition clearTransactions :: "transactionGroups \<Rightarrow> bool \<times> transactionGroups" where
  "clearTransactions s = (True, s\<lparr>eth := [], erc20 := []\<rparr>)"

subsection \<open>getBatchStatus\<close>

record batch_status =
  st_totalTransactions :: nat
  st_ethTransactions :: nat
  st_erc20Transactions :: nat
  st_erc20TokenCount :: nat
  st_totalEthValue :: string
  st_uniqueRecipients :: nat

text \<open>The two loops of \<open>getBatchStatus\<close>: \<open>uniqueRecipients\<close> is a JavaScript \<open>Set\<close> of the
  \<open>to\<close> strings, to which each entry's \<open>to\<close> is added as it is.\<close>

definition getBatchStatus :: "ethers \<Rightarrow> transactionGroups \<Rightarrow> batch_status" where
  "getBatchStatus L s =
     (let ethCount = length (eth s);
          (uniqueRecipients, totalEthValue) =
             foldl (\<lambda>(u, t) tx. (insert (eth_to tx) u, t + eth_value tx)) ({}, 0) (eth s);
          (erc20Count, uniqueRecipients) =
             foldl (\<lambda>(c, u) (tokenAddress, tokenTxs).
                      (c + length tokenTxs, foldl (\<lambda>u tx. insert (erc20_to tx) u) u tokenTxs))
                   (0, uniqueRecipients) (erc20 s)
      in \<lparr>st_totalTransactions = ethCount + erc20Count,
          st_ethTransactions = ethCount,
          st_erc20Transactions = erc20Count,
          st_erc20TokenCount = length (map fst (erc20 s)),
          st_totalEthValue = formatEther L totalEthValue,
          st_uniqueRecipients = card uniqueRecipients\<rparr>)"

text \<open>The count the specification words describe: recipient addresses compared after
  case normalisation (ASCII upper case folded to lower case).\<close>

definition lower_char :: "char \<Rightarrow> char" where
  "lower_char c =
     (case map_of (zip ''ABCDEFGHIJKLMNOPQRSTUVWXYZ'' ''abcdefghijklmnopqrstuvwxyz'') c of
        None \<Rightarrow> c | Some l \<Rightarrow> l)"

definition all_recipients :: "transactionGroups \<Rightarrow> string list" where
  "all_recipients s = map eth_to (eth s) @ concat (map (\<lambda>(k, txs). map erc20_to txs) (erc20 s))"

definition uniqueRecipients_case_normalized :: "transactionGroups \<Rightarrow> nat" where
  "uniqueRecipients_case_normalized s = card (set (map (map lower_char) (all_recipients s)))"

subsection \<open>The network: calls, their answers and the history of a manager\<close>

text \<open>
  The asynchronous functions talk to the node through the provider, the signer and the two
  contract objects. Every such call either throws (with a message) or answers. The history
  of a manager is the list of the calls it has made so far, each with its answer; the
  answers of the node may depend on the whole history. Console output is not recorded.
\<close>

record receipt =
  rc_hash :: string
  rc_blockNumber :: nat
  rc_gasUsed :: nat
  rc_status :: nat

datatype event =
    Connected
  | SignerAddress string
  | ContractAddress string
  | BalanceOf string string int
  | Allowance string string string int
  | ApproveSubmitted string string int string
  | FeeData "int option"
  | EthGasEstimated "string list" "int list" int nat
  | EthBatchSubmitted "string list" "int list" int nat "int option" string
  | TokenGasEstimated string "string list" "int list" nat
  | TokenBatchSubmitted string "string list" "int list" nat "int option" string
  | Finalized string receipt
  | Failed string

text \<open>
  \<open>BalanceOf token owner b\<close>: \<open>balanceOf(owner)\<close> on \<open>token\<close> answered \<open>b\<close>;
  \<open>Allowance token owner spender a\<close> likewise; \<open>ApproveSubmitted token spender amount hash\<close>:
  \<open>approve(spender, amount)\<close> on \<open>token\<close> was submitted as the transaction \<open>hash\<close>;
  \<open>EthBatchSubmitted recipients amounts value gasLimit gasPrice hash\<close> and
  \<open>TokenBatchSubmitted token recipients amounts gasLimit gasPrice hash\<close>: the executor call was
  submitted; \<open>Finalized hash r\<close>: \<open>wait()\<close> on the transaction \<open>hash\<close> returned the receipt
  \<open>r\<close>; \<open>Failed msg\<close>: a call threw.
\<close>

record network =
  hasWindowEthereum :: bool
  rpc_connect :: "event list \<Rightarrow> string + unit"
  rpc_signerAddress :: "event list \<Rightarrow> string + string"
  rpc_contractAddress :: "event list \<Rightarrow> string + string"
  rpc_balanceOf :: "event list \<Rightarrow> string \<Rightarrow> string \<Rightarrow> string + int"
  rpc_allowance :: "event list \<Rightarrow> string \<Rightarrow> string \<Rightarrow> string \<Rightarrow> string + int"
  rpc_approve :: "event list \<Rightarrow> string \<Rightarrow> string \<Rightarrow> int \<Rightarrow> string + string"
  rpc_getFeeData :: "event list \<Rightarrow> string + int option"
  rpc_estimateGasETH :: "event list \<Rightarrow> string list \<Rightarrow> int list \<Rightarrow> int \<Rightarrow> string + nat"
  rpc_multiSendETH ::
    "event list \<Rightarrow> string list \<Rightarrow> int list \<Rightarrow> int \<Rightarrow> nat \<Rightarrow> int option \<Rightarrow> string + string"
  rpc_estimateGasToken :: "event list \<Rightarrow> string \<Rightarrow> string list \<Rightarrow> int list \<Rightarrow> string + nat"
  rpc_multiSendToken ::
    "event list \<Rightarrow> string \<Rightarrow> string list \<Rightarrow> int list \<Rightarrow> nat \<Rightarrow> int option \<Rightarrow> string + string"
  rpc_wait :: "event list \<Rightarrow> string \<Rightarrow> string + receipt"

text \<open>
  An asynchronous computation reads the history so far and returns its outcome together
  with the events it adds to the history. \<open>io_bind\<close> is \<open>await\<close> followed by the rest of
  the function; a thrown error skips the rest.
\<close>

type_synonym 'a io = "event list \<Rightarrow> (js_error + 'a) \<times> event list"

definition io_return :: "'a \<Rightarrow> 'a io" where
  "io_return x h = (Inr x, [])"

definition io_throw :: "js_error \<Rightarrow> 'a io" where
  "io_throw e h = (Inl e, [])"

definition io_bind :: "'a io \<Rightarrow> ('a \<Rightarrow> 'b io) \<Rightarrow> 'b io" where
  "io_bind m f h =
     (case m h of
        (Inl e, n1) \<Rightarrow> (Inl e, n1)
      | (Inr x, n1) \<Rightarrow> (case f x (h @ n1) of (r, n2) \<Rightarrow> (r, n1 @ n2)))"

text \<open>\<open>try { m } catch (error) { throw new Error(prefix + error.message) }\<close>.\<close>

definition io_catch :: "(js_error \<Rightarrow> js_error) \<Rightarrow> 'a io \<Rightarrow> 'a io" where
  "io_catch wrap m h = (case m h of (Inl e, n) \<Rightarrow> (Inl (wrap e), n) | (Inr x, n) \<Rightarrow> (Inr x, n))"

text \<open>One call to the node: the answer is recorded, a throw is recorded and propagated.\<close>

definition perform :: "(event list \<Rightarrow> string + 'a) \<Rightarrow> ('a \<Rightarrow> event) \<Rightarrow> 'a io" where
  "perform call ev h =
     (case call h of
        Inl msg \<Rightarrow> (Inl (Thrown msg), [Failed msg])
      | Inr x \<Rightarrow> (Inr x, [ev x]))"

subsection \<open>initializeConnection and getConnection\<close>

record config =
  providerUrl :: "string option"
  privateKey :: "string option"
  multiSendContractAddress :: "string option"

text \<open>\<open>!x\<close> for an optional string: undefined and the empty string are falsy.\<close>

definition falsy :: "string option \<Rightarrow> bool" where
  "falsy x = (case x of None \<Rightarrow> True | Some v \<Rightarrow> v = [])"

text \<open>The constructors of the provider, the signer and the contract object (and
  \<open>getSigner\<close> in the browser) are the one call \<open>rpc_connect\<close>.\<close>

definition initializeConnection :: "network \<Rightarrow> config \<Rightarrow> unit io" where
  "initializeConnection net cfg =
     (if falsy (multiSendContractAddress cfg) then io_throw ContractAddressRequired
      else if hasWindowEthereum net then perform (rpc_connect net) (\<lambda>_. Connected)
      else if falsy (providerUrl cfg) then io_throw ProviderUrlRequired
      else if falsy (privateKey cfg) then io_throw PrivateKeyRequired
      else perform (rpc_connect net) (\<lambda>_. Connected))"

text \<open>The variable \<open>connection\<close> is set exactly when \<open>initializeConnection\<close> has returned,
  that is when the history holds \<open>Connected\<close>.\<close>

definition getConnection :: "network \<Rightarrow> config \<Rightarrow> unit io" where
  "getConnection net cfg h =
     (if Connected \<in> set h then io_return () h else initializeConnection net cfg h)"

subsection \<open>checkAndApproveToken\<close>

definition checkAndApproveToken :: "network \<Rightarrow> config \<Rightarrow> string \<Rightarrow> erc20_tx list \<Rightarrow> bool io" where
  "checkAndApproveToken net cfg tokenAddress tokenTxs =
     io_bind (getConnection net cfg) (\<lambda>_.
     let totalAmount = foldl (\<lambda>sum tx. sum + erc20_value tx) 0 tokenTxs in
     io_bind (perform (rpc_signerAddress net) SignerAddress) (\<lambda>signerAddress.
     io_bind (perform (\<lambda>h. rpc_balanceOf net h tokenAddress signerAddress)
                (BalanceOf tokenAddress signerAddress)) (\<lambda>balance.
     if balance < totalAmount then io_throw (InsufficientTokenBalance tokenAddress)
     else
     io_bind (perform (rpc_contractAddress net) ContractAddress) (\<lambda>spender.
     io_bind (perform (\<lambda>h. rpc_allowance net h tokenAddress signerAddress spender)
                (Allowance tokenAddress signerAddress spender)) (\<lambda>allowance.
     if allowance < totalAmount then
       io_bind (perform (rpc_contractAddress net) ContractAddress) (\<lambda>spender.
       io_bind (perform (\<lambda>h. rpc_approve net h tokenAddress spender totalAmount)
                  (ApproveSubmitted tokenAddress spender totalAmount)) (\<lambda>approveTx.
       io_bind (perform (\<lambda>h. rpc_wait net h approveTx) (Finalized approveTx)) (\<lambda>_.
       io_return True)))
     else io_return True)))))"

subsection \<open>estimateGas\<close>

record options =
  ethGasLimit :: "nat option"
  tokenGasLimits :: "(string \<Rightarrow> nat option) option"
  gasPrice :: "int option"

text \<open>\<open>options.x ? ... : ...\<close> on an optional number: absent and zero are falsy.\<close>

definition given :: "'a::zero option \<Rightarrow> 'a option" where
  "given x = (case x of None \<Rightarrow> None | Some v \<Rightarrow> if v = 0 then None else Some v)"

record eth_estimate =
  gasEstimate :: nat
  gasWithBuffer :: nat
  est_totalValue :: string

record estimate_results =
  est_ethTransactions :: nat
  est_erc20Transactions :: nat
  est_totalTransactions :: nat
  est_eth :: "eth_estimate option"
  est_gasPrice :: int

definition estimateGas ::
  "ethers \<Rightarrow> network \<Rightarrow> config \<Rightarrow> options \<Rightarrow> transactionGroups \<Rightarrow> estimate_results io" where
  "estimateGas L net cfg opts s =
     io_bind (getConnection net cfg) (\<lambda>_.
     let ethTransactions = length (eth s);
         erc20Count = foldl (\<lambda>c (tokenAddress, tokenTxs). c + length tokenTxs) 0 (erc20 s);
         totalTransactions = ethTransactions + erc20Count
     in
     if totalTransactions = 0 then io_throw NoTransactionsToEstimate
     else
     io_bind (case given (gasPrice opts) of
                Some p \<Rightarrow> io_return p
              | None \<Rightarrow> io_bind (perform (rpc_getFeeData net) FeeData)
                          (\<lambda>fees. io_return (case given fees of Some p \<Rightarrow> p | None \<Rightarrow> 0)))
       (\<lambda>gasPrice.
     io_catch GasEstimationFailed
       (if length (eth s) > 0 then
          let recipients = map eth_to (eth s);
              amounts = map eth_value (eth s);
              totalValue = foldl (\<lambda>sum v. sum + v) 0 amounts
          in
          io_bind (perform (\<lambda>h. rpc_estimateGasETH net h recipients amounts totalValue)
                     (EthGasEstimated recipients amounts totalValue)) (\<lambda>ethGasEstimate.
          let ethGasWithBuffer = (ethGasEstimate * 110) div 100 in
          io_return
            \<lparr>est_ethTransactions = ethTransactions, est_erc20Transactions = erc20Count,
             est_totalTransactions = totalTransactions,
             est_eth = Some \<lparr>gasEstimate = ethGasEstimate, gasWithBuffer = ethGasWithBuffer,
                             est_totalValue = formatEther L totalValue\<rparr>,
             est_gasPrice = gasPrice\<rparr>)
        else
          io_return
            \<lparr>est_ethTransactions = ethTransactions, est_erc20Transactions = erc20Count,
             est_totalTransactions = totalTransactions, est_eth = None,
             est_gasPrice = gasPrice\<rparr>)))"

subsection \<open>sendBatchTransaction\<close>

record group_receipt =
  gr_transactionHash :: string
  gr_blockNumber :: nat
  gr_gasUsed :: nat
  gr_status :: string
  gr_recipients :: nat

record send_results =
  ethTransaction :: "group_receipt option"
  erc20Transactions :: "(string \<times> group_receipt) list"
  totalTransactions :: nat

definition receipt_of :: "receipt \<Rightarrow> nat \<Rightarrow> group_receipt" where
  "receipt_of r n =
     \<lparr>gr_transactionHash = rc_hash r, gr_blockNumber = rc_blockNumber r,
      gr_gasUsed = rc_gasUsed r,
      gr_status = (if rc_status r = 1 then ''success'' else ''failed''), gr_recipients = n\<rparr>"

text \<open>\<open>results.erc20Transactions[tokenAddress] = receipt\<close>.\<close>

fun assign :: "string \<Rightarrow> 'v \<Rightarrow> (string \<times> 'v) list \<Rightarrow> (string \<times> 'v) list" where
  "assign k v [] = [(k, v)]"
| "assign k v ((k', v') # kvs) =
     (if k' = k then (k, v) # kvs else (k', v') # assign k v kvs)"

text \<open>The block \<open>if (transactionGroups.eth.length > 0) { ... }\<close> of \<open>sendBatchTransaction\<close>.\<close>

definition sendEthGroup :: "network \<Rightarrow> options \<Rightarrow> eth_tx list \<Rightarrow> group_receipt io" where
  "sendEthGroup net opts txs =
     (let recipients = map eth_to txs;
          amounts = map eth_value txs;
          totalValue = foldl (\<lambda>sum v. sum + v) 0 amounts
      in
      io_bind (case given (ethGasLimit opts) of
                 Some g \<Rightarrow> io_return g
               | None \<Rightarrow>
                   io_bind (perform (\<lambda>h. rpc_estimateGasETH net h recipients amounts totalValue)
                              (EthGasEstimated recipients amounts totalValue))
                     (\<lambda>ethGasEstimate. io_return ((ethGasEstimate * 110) div 100)))
        (\<lambda>gasLimit.
      io_bind (perform (\<lambda>h. rpc_multiSendETH net h recipients amounts totalValue gasLimit
                                (given (gasPrice opts)))
                 (EthBatchSubmitted recipients amounts totalValue gasLimit (given (gasPrice opts))))
        (\<lambda>ethTx.
      io_bind (perform (\<lambda>h. rpc_wait net h ethTx) (Finalized ethTx)) (\<lambda>ethReceipt.
      io_return (receipt_of ethReceipt (length recipients))))))"

text \<open>The body of the loop \<open>for (const tokenAddress in transactionGroups.erc20)\<close> for a group
  with at least one entry.\<close>

definition sendTokenGroup ::
  "network \<Rightarrow> config \<Rightarrow> options \<Rightarrow> string \<Rightarrow> erc20_tx list \<Rightarrow> group_receipt io" where
  "sendTokenGroup net cfg opts tokenAddress tokenTxs =
     io_bind (checkAndApproveToken net cfg tokenAddress tokenTxs) (\<lambda>_.
     let recipients = map erc20_to tokenTxs;
         amounts = map erc20_value tokenTxs
     in
     io_bind (case (case tokenGasLimits opts of None \<Rightarrow> None | Some f \<Rightarrow> given (f tokenAddress)) of
                Some g \<Rightarrow> io_return g
              | None \<Rightarrow>
                  io_bind (perform (\<lambda>h. rpc_estimateGasToken net h tokenAddress recipients amounts)
                             (TokenGasEstimated tokenAddress recipients amounts))
                    (\<lambda>tokenGasEstimate. io_return ((tokenGasEstimate * 110) div 100)))
       (\<lambda>gasLimit.
     io_bind (perform (\<lambda>h. rpc_multiSendToken net h tokenAddress recipients amounts gasLimit
                               (given (gasPrice opts)))
                (TokenBatchSubmitted tokenAddress recipients amounts gasLimit (given (gasPrice opts))))
       (\<lambda>tokenTx.
     io_bind (perform (\<lambda>h. rpc_wait net h tokenTx) (Finalized tokenTx)) (\<lambda>tokenReceipt.
     io_return (receipt_of tokenReceipt (length recipients))))))"

text \<open>The loop over the token groups, threading \<open>results.erc20Transactions\<close>.\<close>

fun sendTokenGroups ::
  "network \<Rightarrow> config \<Rightarrow> options \<Rightarrow> (string \<times> erc20_tx list) list \<Rightarrow> (string \<times> group_receipt) list
     \<Rightarrow> (string \<times> group_receipt) list io" where
  "sendTokenGroups net cfg opts [] acc = io_return acc"
| "sendTokenGroups net cfg opts ((tokenAddress, tokenTxs) # gs) acc =
     (if length tokenTxs > 0 then
        io_bind (sendTokenGroup net cfg opts tokenAddress tokenTxs) (\<lambda>r.
        sendTokenGroups net cfg opts gs (assign tokenAddress r acc))
      else sendTokenGroups net cfg opts gs acc)"

definition sendBatchTransaction ::
  "network \<Rightarrow> config \<Rightarrow> options \<Rightarrow> transactionGroups \<Rightarrow> send_results io" where
  "sendBatchTransaction net cfg opts s =
     io_bind (getConnection net cfg) (\<lambda>_.
     let total = foldl (\<lambda>c (tokenAddress, tokenTxs). c + length tokenTxs) (length (eth s)) (erc20 s)
     in
     if total = 0 then io_throw NoTransactionsToSend
     else
     io_catch FailedToSend
       (io_bind (if length (eth s) > 0
                 then io_bind (sendEthGroup net opts (eth s)) (\<lambda>r. io_return (Some r))
                 else io_return None) (\<lambda>ethResult.
        io_bind (sendTokenGroups net cfg opts (erc20 s) []) (\<lambda>tokenResults.
        io_return \<lparr>ethTransaction = ethResult, erc20Transactions = tokenResults,
                   totalTransactions = total\<rparr>))))"

subsection \<open>Concrete data for runs of the client\<close>

text \<open>
  A stand-in for the three ethers utilities, used only to run the client on concrete
  inputs: an address is \<open>0x\<close> followed by 40 hexadecimal digits (the checksum of
  mixed-case addresses is not modelled), \<open>parseUnits\<close> reads an optionally signed decimal
  numeral with at most \<open>decimals\<close> fractional digits, \<open>formatEther\<close> prints wei with 18
  decimals and trailing zeros removed.
\<close>

definition is_hex_digit :: "char \<Rightarrow> bool" where
  "is_hex_digit c \<longleftrightarrow> c \<in> set ''0123456789abcdefABCDEF''"

definition isAddress_model :: "string \<Rightarrow> bool" where
  "isAddress_model a \<longleftrightarrow> length a = 42 \<and> take 2 a = ''0x'' \<and> list_all is_hex_digit (drop 2 a)"

fun digits_value :: "nat \<Rightarrow> string \<Rightarrow> nat option" where
  "digits_value acc [] = Some acc"
| "digits_value acc (c # cs) =
     (case map_of (zip ''0123456789'' [0, 1, 2, 3, 4, 5, 6, 7, 8, 9]) c of
        None \<Rightarrow> None
      | Some d \<Rightarrow> digits_value (acc * 10 + d) cs)"

definition parseUnits_model :: "string \<Rightarrow> nat \<Rightarrow> string + int" where
  "parseUnits_model v decimals =
     (let negative = (take 1 v = ''-'');
          body = (if negative then drop 1 v else v);
          whole = takeWhile (\<lambda>c. c \<noteq> CHR ''.'') body;
          frac = drop 1 (dropWhile (\<lambda>c. c \<noteq> CHR ''.'') body)
      in if whole @ frac = [] then Inl ''invalid FixedNumber string value''
         else (case (digits_value 0 whole, digits_value 0 frac) of
                 (Some w, Some f) \<Rightarrow>
                   if length frac > decimals then Inl ''too many decimals for format''
                   else Inr ((if negative then - 1 else 1) *
                             int (w * 10 ^ decimals + f * 10 ^ (decimals - length frac)))
               | _ \<Rightarrow> Inl ''invalid FixedNumber string value''))"

fun decimal :: "nat \<Rightarrow> string" where
  "decimal n = (if n < 10 then [''0123456789'' ! n]
                else decimal (n div 10) @ [''0123456789'' ! (n mod 10)])"

declare decimal.simps [simp del]

definition formatEther_model :: "int \<Rightarrow> string" where
  "formatEther_model wei =
     (let a = nat \<bar>wei\<bar>;
          f = decimal (a mod 10 ^ 18);
          padded = replicate (18 - length f) CHR ''0'' @ f;
          stripped = rev (dropWhile (\<lambda>c. c = CHR ''0'') (rev padded))
      in (if wei < 0 then ''-'' else []) @ decimal (a div 10 ^ 18) @ ''.'' @
         (if stripped = [] then ''0'' else stripped))"

definition example_ethers :: ethers where
  "example_ethers =
     \<lparr>isAddress = isAddress_model, parseUnits = parseUnits_model, formatEther = formatEther_model\<rparr>"

text \<open>Two native entries for the same account, once in checksum case (as in example.js)
  and once in lower case; both spellings are valid addresses.\<close>

definition case_variants :: transactionGroups where
  "case_variants =
     \<lparr>eth = [\<lparr>eth_to = ''0xe5c9D14D4d59CE293F3b5562c7CA7E19b0164Df5'', eth_value = 10000000000000\<rparr>,
             \<lparr>eth_to = ''0xe5c9d14d4d59ce293f3b5562c7ca7e19b0164df5'', eth_value = 10000000000000\<rparr>],
      erc20 = []\<rparr>"

text \<open>The margin as the specification words it: \<open>ceil(simulatedCost * 1.10)\<close>.\<close>

definition cost_with_margin_spec :: "nat \<Rightarrow> int" where
  "cost_with_margin_spec simulatedCost = \<lceil>real simulatedCost * (110 / 100)\<rceil>"

subsection \<open>Reading a history\<close>

text \<open>"Native count plus token count across all groups".\<close>

definition batch_size :: "transactionGroups \<Rightarrow> nat" where
  "batch_size s = length (eth s) + sum_list (map (\<lambda>(k, txs). length txs) (erc20 s))"

text \<open>The required total of a token group: the sum of its entries' values.\<close>

definition required_total :: "erc20_tx list \<Rightarrow> int" where
  "required_total tokenTxs = sum_list (map erc20_value tokenTxs)"

text \<open>The receipts of the transactions that a run has seen finalized, in order.\<close>

fun finalized_receipts :: "event list \<Rightarrow> (string \<times> receipt) list" where
  "finalized_receipts [] = []"
| "finalized_receipts (Finalized hash r # es) = (hash, r) # finalized_receipts es"
| "finalized_receipts (e # es) = finalized_receipts es"

text \<open>
  The approvals that have been submitted and whose finalization has not been observed yet,
  after the events \<open>es\<close>, starting from the pending approvals \<open>p\<close>.
\<close>

fun pending_approvals :: "string list \<Rightarrow> event list \<Rightarrow> string list" where
  "pending_approvals p [] = p"
| "pending_approvals p (ApproveSubmitted t spender amount hash # es) =
     pending_approvals (hash # p) es"
| "pending_approvals p (Finalized hash r # es) = pending_approvals (removeAll hash p) es"
| "pending_approvals p (e # es) = pending_approvals p es"

text \<open>The sequence assertion: whenever a token batch is submitted, no approval is pending,
  so every approval submitted before it has been seen finalized.\<close>

fun approvals_finalized_first :: "string list \<Rightarrow> event list \<Rightarrow> bool" where
  "approvals_finalized_first p [] = True"
| "approvals_finalized_first p (TokenBatchSubmitted t rs as g gp hash # es) =
     (p = [] \<and> approvals_finalized_first p es)"
| "approvals_finalized_first p (e # es) =
     approvals_finalized_first (pending_approvals p [e]) es"

text \<open>
  The steps of one token group, as an automaton over the history of the group: the balance
  is read first; the allowance is read only after a sufficient balance; an approval is
  submitted only after an insufficient allowance and only for the required total; the
  transfer is submitted only after a sufficient allowance or a finalized approval. Events
  that are not calls on the token or the executor's token function are passed over.
\<close>

datatype stage =
    Start
  | BalanceInsufficient
  | BalanceSufficient
  | AllowanceSufficient
  | ApprovalNeeded
  | ApprovalPending string
  | ApprovalFinalized
  | TransferSubmitted

fun follows_protocol :: "string \<Rightarrow> int \<Rightarrow> stage \<Rightarrow> event list \<Rightarrow> bool" where
  "follows_protocol t required st [] = True"
| "follows_protocol t required st (BalanceOf t' owner b # es) =
     (st = Start \<and> t' = t \<and>
      follows_protocol t required (if b < required then BalanceInsufficient else BalanceSufficient) es)"
| "follows_protocol t required st (Allowance t' owner spender a # es) =
     (st = BalanceSufficient \<and> t' = t \<and>
      follows_protocol t required (if a < required then ApprovalNeeded else AllowanceSufficient) es)"
| "follows_protocol t required st (ApproveSubmitted t' spender amount hash # es) =
     (st = ApprovalNeeded \<and> t' = t \<and> amount = required \<and>
      follows_protocol t required (ApprovalPending hash) es)"
| "follows_protocol t required st (Finalized hash r # es) =
     follows_protocol t required (if st = ApprovalPending hash then ApprovalFinalized else st) es"
| "follows_protocol t required st (TokenBatchSubmitted t' rs as g gp hash # es) =
     ((st = AllowanceSufficient \<or> st = ApprovalFinalized) \<and> t' = t \<and>
      follows_protocol t required TransferSubmitted es)"
| "follows_protocol t required st (e # es) = follows_protocol t required st es"

text \<open>Every event that a computation adds to the history satisfies \<open>P\<close>.\<close>

definition emits :: "(event \<Rightarrow> bool) \<Rightarrow> 'a io \<Rightarrow> bool" where
  "emits P m \<longleftrightarrow> (\<forall>h r n. m h = (r, n) \<longrightarrow> list_all P n)"

text \<open>Whatever the history, the events a computation adds pass the sequence assertion,
  and when it returns normally it leaves no approval pending.\<close>

definition orderly :: "'a io \<Rightarrow> bool" where
  "orderly m \<longleftrightarrow>
     (\<forall>h r n. m h = (r, n) \<longrightarrow>
        approvals_finalized_first [] n \<and> (\<forall>x. r = Inr x \<longrightarrow> pending_approvals [] n = []))"

text \<open>The submission of an approval; the submission of an approval or of a token batch.\<close>

definition is_approval :: "event \<Rightarrow> bool" where
  "is_approval e = (case e of ApproveSubmitted t spender amount hash \<Rightarrow> True | _ \<Rightarrow> False)"

definition is_submission :: "event \<Rightarrow> bool" where
  "is_submission e =
     (case e of ApproveSubmitted t spender amount hash \<Rightarrow> True
              | TokenBatchSubmitted t rs as g gp hash \<Rightarrow> True
              | _ \<Rightarrow> False)"

text \<open>An approval is for a token group of the batch and for exactly its required total.\<close>

definition approval_for :: "(string \<times> erc20_tx list) list \<Rightarrow> event \<Rightarrow> bool" where
  "approval_for gs e =
     (case e of
        ApproveSubmitted t spender amount hash \<Rightarrow>
          list_ex (\<lambda>(t', txs). t' = t \<and> amount = required_total txs) gs
      | _ \<Rightarrow> True)"

text \<open>The caller's gas override for a token group, as \<open>sendBatchTransaction\<close> reads it.\<close>

definition token_override :: "options \<Rightarrow> string \<Rightarrow> nat option" where
  "token_override opts t = (case tokenGasLimits opts of None \<Rightarrow> None | Some f \<Rightarrow> given (f t))"

text \<open>
  A submission of a batch is within budget in a history when, the caller having given no
  override for it, the history holds the gas estimate for the same call and the submitted
  gas limit is that estimate times 110, divided by 100 in integer arithmetic.
\<close>

definition budget_ok :: "options \<Rightarrow> event list \<Rightarrow> event \<Rightarrow> bool" where
  "budget_ok opts n e =
     (case e of
        EthBatchSubmitted rs as v gl gp hash \<Rightarrow>
          given (ethGasLimit opts) = None \<longrightarrow>
          (\<exists>est. EthGasEstimated rs as v est \<in> set n \<and> gl = (est * 110) div 100)
      | TokenBatchSubmitted t rs as gl gp hash \<Rightarrow>
          token_override opts t = None \<longrightarrow>
          (\<exists>est. TokenGasEstimated t rs as est \<in> set n \<and> gl = (est * 110) div 100)
      | _ \<Rightarrow> True)"

definition within_budget :: "options \<Rightarrow> event list \<Rightarrow> bool" where
  "within_budget opts n \<longleftrightarrow> list_all (budget_ok opts n) n"

definition budgeted :: "options \<Rightarrow> 'a io \<Rightarrow> bool" where
  "budgeted opts m \<longleftrightarrow> (\<forall>h r n. m h = (r, n) \<longrightarrow> within_budget opts n)"

text \<open>The submission of a native or token batch to the executor.\<close>

definition is_batch_submission :: "event \<Rightarrow> bool" where
  "is_batch_submission e =
     (case e of EthBatchSubmitted rs as v gl gp hash \<Rightarrow> True
              | TokenBatchSubmitted t rs as gl gp hash \<Rightarrow> True
              | _ \<Rightarrow> False)"

subsection \<open>Concrete networks and batches\<close>

text \<open>A node on which every call succeeds: it estimates 96394 gas for the native batch (the
  figure of the README), reports a token balance of 1000000000 and an allowance of 0
  until an approval has been finalized.\<close>

definition example_receipt :: "string \<Rightarrow> receipt" where
  "example_receipt hash = \<lparr>rc_hash = hash, rc_blockNumber = 12345678, rc_gasUsed = 96000, rc_status = 1\<rparr>"

definition example_network :: network where
  "example_network =
     \<lparr>hasWindowEthereum = False,
      rpc_connect = (\<lambda>h. Inr ()),
      rpc_signerAddress = (\<lambda>h. Inr ''0xe5c9D14D4d59CE293F3b5562c7CA7E19b0164Df5''),
      rpc_contractAddress = (\<lambda>h. Inr ''0x34d10D1Ab8204d51E5dc5dCc31b6A7B14be697c3''),
      rpc_balanceOf = (\<lambda>h t owner. Inr 1000000000),
      rpc_allowance = (\<lambda>h t owner spender.
         Inr (if Finalized ''0xa1'' (example_receipt ''0xa1'') \<in> set h then 100000000 else 0)),
      rpc_approve = (\<lambda>h t spender amount. Inr ''0xa1''),
      rpc_getFeeData = (\<lambda>h. Inr (Some 20000000000)),
      rpc_estimateGasETH = (\<lambda>h rs as v. Inr 96394),
      rpc_multiSendETH = (\<lambda>h rs as v g gp. Inr ''0xe1''),
      rpc_estimateGasToken = (\<lambda>h t rs as. Inr 120000),
      rpc_multiSendToken = (\<lambda>h t rs as g gp. Inr ''0xb1''),
      rpc_wait = (\<lambda>h hash. Inr (example_receipt hash))\<rparr>"

text \<open>The same node with an empty token balance, and one that also hands out another
  hash for the native batch.\<close>

definition poor_network :: network where
  "poor_network = example_network\<lparr>rpc_balanceOf := (\<lambda>h t owner. Inr 0)\<rparr>"

definition other_poor_network :: network where
  "other_poor_network = poor_network\<lparr>rpc_multiSendETH := (\<lambda>h rs as v g gp. Inr ''0xe2'')\<rparr>"

definition example_config :: config where
  "example_config =
     \<lparr>providerUrl = Some ''https://sepolia.base.org'', privateKey = Some ''key'',
      multiSendContractAddress = Some ''0x34d10D1Ab8204d51E5dc5dCc31b6A7B14be697c3''\<rparr>"

definition no_options :: options where
  "no_options = \<lparr>ethGasLimit = None, tokenGasLimits = None, gasPrice = None\<rparr>"

text \<open>The batch of example.js: two native entries and one token entry of 100 units with 6
  decimals.\<close>

definition example_token_txs :: "erc20_tx list" where
  "example_token_txs =
     [\<lparr>erc20_to = ''0xad57aAcad13d86Daa8aD55f0e18B1b62377c0496'', erc20_value = 100000000,
       erc20_decimals = 6\<rparr>]"

definition example_batch :: transactionGroups where
  "example_batch =
     \<lparr>eth = [\<lparr>eth_to = ''0xe5c9D14D4d59CE293F3b5562c7CA7E19b0164Df5'', eth_value = 10000000000000\<rparr>,
             \<lparr>eth_to = ''0xad57aAcad13d86Daa8aD55f0e18B1b62377c0496'', eth_value = 50000000000000\<rparr>],
      erc20 = [(''0x132aAd982184489d78420756785f9a395c14dd15'', example_token_txs)]\<rparr>"

section \<open>Properties of the executor\<close>

subsection \<open>Checked sums and the native transfer loop\<close>

lemma sum_amounts_Inr:
  "sum_amounts t as = Inr s \<Longrightarrow> unat s = unat t + total_of as"
proof (induction as arbitrary: t)
  case Nil
  then show ?case by (simp add: total_of_def)
next
  case (Cons a as)
  from Cons.prems have ok: "unat t + unat a < 2 ^ 256"
    and rec: "sum_amounts (t + a) as = Inr s"
    by (auto split: if_splits)
  from ok have "unat (t + a) = unat t + unat a"
    by (simp add: unat_add_lem [THEN iffD1])
  with Cons.IH [OF rec] show ?case by (simp add: total_of_def)
qed

lemma sum_amounts_Inl:
  "sum_amounts t as = Inl e \<Longrightarrow> e = Panic 17 \<and> 2 ^ 256 \<le> unat t + total_of as"
proof (induction as arbitrary: t)
  case Nil
  then show ?case by simp
next
  case (Cons a as)
  show ?case
  proof (cases "unat t + unat a < 2 ^ 256")
    case True
    then have u: "unat (t + a) = unat t + unat a"
      by (simp add: unat_add_lem [THEN iffD1])
    from True Cons.prems have "sum_amounts (t + a) as = Inl e" by simp
    from Cons.IH [OF this] u show ?thesis by (simp add: total_of_def)
  next
    case False
    with Cons.prems show ?thesis by (auto simp: total_of_def)
  qed
qed

lemma call_value_Some:
  "call_value this w r a = Some w' \<longleftrightarrow>
     unat a \<le> native w this \<and> r \<noteq> this \<and> payable w r \<and>
     w' = w\<lparr>native := (native w)(this := native w this - unat a, r := native w r + unat a)\<rparr>"
  by (auto simp: call_value_def receive_def)

lemma paid_to_Cons:
  "paid_to x (r # rs) (a # as) = (if r = x then unat a else 0) + paid_to x rs as"
  by (simp add: paid_to_def)

lemma eth_transfers_ok:
  "length rs = length as \<Longrightarrow> 0 \<notin> set rs \<Longrightarrow> \<forall>r\<in>set rs. accepts_value this w r \<Longrightarrow>
   total_of as \<le> native w this \<Longrightarrow>
   \<exists>w'. eth_transfers this w rs as = Inr w' \<and>
        (\<forall>x. native w' x + (if x = this then total_of as else 0) = native w x + paid_to x rs as) \<and>
        payable w' = payable w \<and> token_state w' = token_state w \<and> events w' = events w"
proof (induction rs as arbitrary: w rule: list_induct2)
  case Nil
  then show ?case by (simp add: paid_to_def total_of_def)
next
  case (Cons r rs a as)
  let ?w1 = "w\<lparr>native := (native w)(this := native w this - unat a, r := native w r + unat a)\<rparr>"
  from Cons.prems have r: "r \<noteq> 0" "r \<noteq> this" "payable w r" and le: "unat a + total_of as \<le> native w this"
    by (auto simp: accepts_value_def total_of_def)
  then have cv: "call_value this w r a = Some ?w1"
    by (simp add: call_value_Some)
  have "\<exists>w'. eth_transfers this ?w1 rs as = Inr w' \<and>
        (\<forall>x. native w' x + (if x = this then total_of as else 0) = native ?w1 x + paid_to x rs as) \<and>
        payable w' = payable ?w1 \<and> token_state w' = token_state ?w1 \<and> events w' = events ?w1"
    using Cons.prems r le by (intro Cons.IH) (auto simp: accepts_value_def)
  then obtain w' where w': "eth_transfers this ?w1 rs as = Inr w'"
    and bal: "\<And>x. native w' x + (if x = this then total_of as else 0) = native ?w1 x + paid_to x rs as"
    and rest: "payable w' = payable w" "token_state w' = token_state w" "events w' = events w"
    by auto
  have "native w' x + (if x = this then total_of (a # as) else 0) = native w x + paid_to x (r # rs) (a # as)" for x
    using bal [of x] r le by (auto simp: paid_to_Cons total_of_def)
  with w' cv r rest show ?case by simp
qed

lemma eth_transfers_fail:
  "length rs = length as \<Longrightarrow> 0 \<in> set rs \<or> (\<exists>r\<in>set rs. \<not> accepts_value this w r) \<Longrightarrow>
   \<exists>e. eth_transfers this w rs as = Inl e"
proof (induction rs as arbitrary: w rule: list_induct2)
  case Nil
  then show ?case by simp
next
  case (Cons r rs a as)
  show ?case
  proof (cases "r = 0 \<or> call_value this w r a = None")
    case True
    then show ?thesis by auto
  next
    case False
    then obtain w1 where cv: "call_value this w r a = Some w1" and r0: "r \<noteq> 0" by auto
    then have acc: "accepts_value this w r" and same: "payable w1 = payable w"
      by (auto simp: call_value_Some accepts_value_def)
    with Cons.prems r0 have "0 \<in> set rs \<or> (\<exists>r\<in>set rs. \<not> accepts_value this w1 r)"
      by (auto simp: accepts_value_def)
    from Cons.IH [OF this] cv r0 show ?thesis by simp
  qed
qed

lemma multiSendETH_fails:
  assumes "length recipients \<noteq> length amounts \<or> length recipients = 0 \<or>
     unat msg_value \<noteq> total_of amounts \<or> 0 \<in> set recipients \<or>
     (\<exists>r\<in>set recipients. \<not> accepts_value this w r)"
  shows "\<exists>e. multiSendETH this msg_sender msg_value recipients amounts w = Inl e"
proof (cases "length recipients = length amounts")
  case False
  then show ?thesis by (simp add: multiSendETH_def Let_def)
next
  case len: True
  let ?n1 = "(native w)(msg_sender := native w msg_sender - unat msg_value)"
  let ?w1 = "w\<lparr>native := ?n1(this := ?n1 this + unat msg_value)\<rparr>"
  have acc: "accepts_value this ?w1 r = accepts_value this w r" for r
    by (simp add: accepts_value_def)
  show ?thesis
  proof (cases "sum_amounts 0 amounts")
    case (Inl e)
    then show ?thesis by (simp add: multiSendETH_def Let_def)
  next
    case (Inr total)
    from sum_amounts_Inr [OF this] have tot: "unat total = total_of amounts" by simp
    show ?thesis
    proof (cases "msg_value = total")
      case False
      with Inr show ?thesis by (simp add: multiSendETH_def Let_def)
    next
      case True
      with tot assms len
      have "0 \<in> set recipients \<or> (\<exists>r\<in>set recipients. \<not> accepts_value this w r) \<or> recipients = []"
        by auto
      then have "0 \<in> set recipients \<or> (\<exists>r\<in>set recipients. \<not> accepts_value this ?w1 r) \<or> recipients = []"
        using acc by blast
      then show ?thesis
      proof (elim disjE)
        assume "recipients = []"
        then show ?thesis by (simp add: multiSendETH_def Let_def)
      next
        assume "0 \<in> set recipients"
        then have "\<exists>e. eth_transfers this ?w1 recipients amounts = Inl e"
          using len by (intro eth_transfers_fail) auto
        then show ?thesis using Inr by (auto simp: multiSendETH_def Let_def)
      next
        assume "\<exists>r\<in>set recipients. \<not> accepts_value this ?w1 r"
        then have "\<exists>e. eth_transfers this ?w1 recipients amounts = Inl e"
          using len by (intro eth_transfers_fail) auto
        then show ?thesis using Inr by (auto simp: multiSendETH_def Let_def)
      qed
    qed
  qed
qed

lemma multiSendETH_succeeds:
  assumes len: "length recipients = length amounts" and ne: "0 < length recipients"
    and val: "unat msg_value = total_of amounts"
    and nz: "0 \<notin> set recipients"
    and acc: "\<forall>r\<in>set recipients. accepts_value this w r"
    and funds: "unat msg_value \<le> native w msg_sender"
  shows "\<exists>w'. multiSendETH this msg_sender msg_value recipients amounts w = Inr w' \<and>
      (\<forall>a. native w' a + (if a = msg_sender then total_of amounts else 0) =
            native w a + paid_to a recipients amounts) \<and>
      payable w' = payable w \<and> token_state w' = token_state w \<and>
      events w' = events w @
        [\<lparr>ev_sender = msg_sender, ev_tokenAddress = 0, ev_totalAmount = msg_value,
          ev_recipientCount = length recipients\<rparr>]"
proof -
  let ?n1 = "(native w)(msg_sender := native w msg_sender - unat msg_value)"
  let ?w1 = "w\<lparr>native := ?n1(this := ?n1 this + unat msg_value)\<rparr>"
  have "total_of amounts < 2 ^ 256"
    using unsigned_less [of msg_value, where 'a = nat] val by simp
  then obtain total where sum: "sum_amounts 0 amounts = Inr total"
    using sum_amounts_Inl [of 0 amounts] by (cases "sum_amounts 0 amounts") auto
  from sum_amounts_Inr [OF sum] val have "unat total = unat msg_value" by simp
  then have total: "total = msg_value" by (simp add: word_unat_eq_iff)
  have "\<exists>w'. eth_transfers this ?w1 recipients amounts = Inr w' \<and>
        (\<forall>x. native w' x + (if x = this then total_of amounts else 0) =
               native ?w1 x + paid_to x recipients amounts) \<and>
        payable w' = payable ?w1 \<and> token_state w' = token_state ?w1 \<and> events w' = events ?w1"
    using len nz acc val by (intro eth_transfers_ok) (auto simp: accepts_value_def)
  then obtain w2 where w2: "eth_transfers this ?w1 recipients amounts = Inr w2"
    and bal: "\<And>x. native w2 x + (if x = this then total_of amounts else 0) =
               native ?w1 x + paid_to x recipients amounts"
    and rest: "payable w2 = payable w" "token_state w2 = token_state w" "events w2 = events w"
    by auto
  have "native w2 a + (if a = msg_sender then total_of amounts else 0) =
          native w a + paid_to a recipients amounts" for a
    using bal [of a] funds val by (auto split: if_splits)
  with w2 sum total len ne funds rest show ?thesis
    by (simp add: multiSendETH_def Let_def)
qed

text \<open>
  Claim C2. For every call of \<open>multiSendETH\<close>: when the two arrays differ in length, or
  are empty, or the attached value is not the exact sum of the amounts, or a recipient is
  the zero address, or some recipient does not take the value transfer, the transaction
  fails and the ledger is exactly what it was (nobody is paid). Otherwise, for a caller who
  owns the attached value, the transaction succeeds, every account ends with its old
  balance plus the amounts of the entries addressed to it (the caller minus the attached
  value), and exactly one event is appended, carrying the sum of the amounts and the
  length of the array.
\<close>

theorem multiSendETH_all_or_nothing:
  "(length recipients \<noteq> length amounts \<or> length recipients = 0 \<or>
    unat msg_value \<noteq> total_of amounts \<or> 0 \<in> set recipients \<or>
    (\<exists>r\<in>set recipients. \<not> accepts_value this w r)
    \<longrightarrow> (\<exists>e. transact (multiSendETH this msg_sender msg_value recipients amounts) w = (Some e, w)))
   \<and>
   (length recipients = length amounts \<and> 0 < length recipients \<and>
    unat msg_value = total_of amounts \<and> 0 \<notin> set recipients \<and>
    (\<forall>r\<in>set recipients. accepts_value this w r) \<and> unat msg_value \<le> native w msg_sender
    \<longrightarrow> (\<exists>w'. transact (multiSendETH this msg_sender msg_value recipients amounts) w = (None, w') \<and>
          (\<forall>a. native w' a + (if a = msg_sender then total_of amounts else 0) =
                native w a + paid_to a recipients amounts) \<and>
          (\<exists>ev. events w' = events w @ [ev] \<and> ev_sender ev = msg_sender \<and>
                ev_tokenAddress ev = 0 \<and> unat (ev_totalAmount ev) = total_of amounts \<and>
                ev_recipientCount ev = length recipients)))"
proof (intro conjI impI)
  assume "length recipients \<noteq> length amounts \<or> length recipients = 0 \<or>
    unat msg_value \<noteq> total_of amounts \<or> 0 \<in> set recipients \<or>
    (\<exists>r\<in>set recipients. \<not> accepts_value this w r)"
  from multiSendETH_fails [OF this]
  obtain e where "multiSendETH this msg_sender msg_value recipients amounts w = Inl e"
    by blast
  then show "\<exists>e. transact (multiSendETH this msg_sender msg_value recipients amounts) w = (Some e, w)"
    by (simp add: transact_def)
next
  assume h: "length recipients = length amounts \<and> 0 < length recipients \<and>
    unat msg_value = total_of amounts \<and> 0 \<notin> set recipients \<and>
    (\<forall>r\<in>set recipients. accepts_value this w r) \<and> unat msg_value \<le> native w msg_sender"
  then obtain w' where "multiSendETH this msg_sender msg_value recipients amounts w = Inr w'"
    and "\<forall>a. native w' a + (if a = msg_sender then total_of amounts else 0) =
            native w a + paid_to a recipients amounts"
    and "events w' = events w @
        [\<lparr>ev_sender = msg_sender, ev_tokenAddress = 0, ev_totalAmount = msg_value,
          ev_recipientCount = length recipients\<rparr>]"
    using multiSendETH_succeeds [of recipients amounts msg_value this w msg_sender] by blast
  with h show "\<exists>w'. transact (multiSendETH this msg_sender msg_value recipients amounts) w = (None, w') \<and>
          (\<forall>a. native w' a + (if a = msg_sender then total_of amounts else 0) =
                native w a + paid_to a recipients amounts) \<and>
          (\<exists>ev. events w' = events w @ [ev] \<and> ev_sender ev = msg_sender \<and>
                ev_tokenAddress ev = 0 \<and> unat (ev_totalAmount ev) = total_of amounts \<and>
                ev_recipientCount ev = length recipients)"
    by (simp add: transact_def)
qed

text \<open>
  Claim C2, at a concrete call: a length mismatch fails and leaves the ledger alone; paying
  5 and 7 to accounts 2 and 3 with 12 attached succeeds with the balances and the single
  event the theorem promises.
\<close>

theorem multiSendETH_all_or_nothing_witness:
  "length [2, 3 :: address] \<noteq> length [5 :: uint256] \<and>
   (\<exists>e. transact (multiSendETH 100 1 12 [2, 3] [5]) example_world = (Some e, example_world)) \<and>
   unat (12 :: uint256) = total_of [5, 7] \<and> 0 \<notin> set [2, 3 :: address] \<and>
   accepts_value 100 example_world 2 \<and> accepts_value 100 example_world 3 \<and>
   unat (12 :: uint256) \<le> native example_world 1 \<and>
   (\<exists>w'. transact (multiSendETH 100 1 12 [2, 3] [5, 7]) example_world = (None, w') \<and>
         native w' 1 = 8 \<and> native w' 2 = 5 \<and> native w' 3 = 7 \<and> native w' 100 = 0 \<and>
         length (events w') = 1)"
proof -
  have a: "length [2, 3 :: address] \<noteq> length [5 :: uint256]" by simp
  have b: "length [2, 3 :: address] = length [5, 7 :: uint256] \<and> 0 < length [2, 3 :: address] \<and>
    unat (12 :: uint256) = total_of [5, 7] \<and> 0 \<notin> set [2, 3 :: address] \<and>
    (\<forall>r\<in>set [2, 3]. accepts_value 100 example_world r) \<and>
    unat (12 :: uint256) \<le> native example_world 1"
    by (simp add: total_of_def accepts_value_def example_world_def)
  have c: "\<exists>e. transact (multiSendETH 100 1 12 [2, 3] [5]) example_world = (Some e, example_world)"
    using multiSendETH_all_or_nothing
      [where recipients = "[2, 3]" and amounts = "[5]" and msg_value = 12 and this = 100
         and msg_sender = 1 and w = example_world] a
    by blast
  obtain w' where w': "transact (multiSendETH 100 1 12 [2, 3] [5, 7]) example_world = (None, w')"
    and bal: "\<And>a. native w' a + (if a = 1 then total_of [5, 7] else 0) =
                native example_world a + paid_to a [2, 3] [5, 7]"
    and ev: "\<exists>ev. events w' = events example_world @ [ev]"
    using multiSendETH_all_or_nothing
      [where recipients = "[2, 3]" and amounts = "[5, 7]" and msg_value = 12 and this = 100
         and msg_sender = 1 and w = example_world] b
    by blast
  have "native w' 1 = 8" "native w' 2 = 5" "native w' 3 = 7" "native w' 100 = 0"
    using bal [of 1] bal [of 2] bal [of 3] bal [of 100]
    by (simp_all add: total_of_def paid_to_def example_world_def)
  moreover have "length (events w') = 1"
    using ev by (auto simp: example_world_def)
  moreover have "accepts_value 100 example_world 2" "accepts_value 100 example_world 3"
    using b by simp_all
  ultimately show ?thesis using a b c w' by blast
qed

subsection \<open>The token entry points\<close>

lemma token_transfers_zero_amount:
  "length rs = length as \<Longrightarrow> 0 \<in> set as \<Longrightarrow>
   \<exists>e. token_transfers tk this msg_sender token w rs as = Inl e"
proof (induction rs as arbitrary: w rule: list_induct2)
  case Nil
  then show ?case by simp
next
  case (Cons r rs a as)
  show ?case
  proof (cases "a = 0")
    case True
    then show ?thesis by simp
  next
    case False
    with Cons.prems have "0 \<in> set as" by simp
    from Cons.IH [OF this] show ?thesis
      by (cases "safeTransferFrom tk (token_state w) token this msg_sender r a") auto
  qed
qed

lemma token_transfers_ignores_allowance:
  "safeTransferFrom tk' = safeTransferFrom tk \<Longrightarrow>
   token_transfers tk' this msg_sender token w rs as =
   token_transfers tk this msg_sender token w rs as"
  by (induction tk this msg_sender token w rs as rule: token_transfers.induct)
     (auto split: option.splits)

lemma multiSendToken_zero_amount:
  assumes "0 \<in> set amounts"
  shows "\<exists>e. multiSendToken tk this msg_sender token recipients amounts w = Inl e"
proof (cases "length recipients = length amounts")
  case False
  then show ?thesis by (simp add: multiSendToken_def)
next
  case True
  from token_transfers_zero_amount [OF True assms]
  obtain e where "token_transfers tk this msg_sender token w recipients amounts = Inl e"
    by blast
  then show ?thesis
    by (simp add: multiSendToken_def split: sum.splits option.splits)
qed

lemma multiSendToken_low_allowance:
  assumes al: "allowance tk (token_state w) token msg_sender this = Some allowed"
    and low: "unat allowed < total_of amounts"
  shows "\<exists>e. multiSendToken tk this msg_sender token recipients amounts w = Inl e"
proof (cases "sum_amounts 0 amounts")
  case (Inl e)
  then show ?thesis by (simp add: multiSendToken_def)
next
  case (Inr total)
  from sum_amounts_Inr [OF this] low have "unat allowed < unat total" by simp
  then have "\<not> total \<le> allowed" by (simp add: word_le_nat_alt)
  with Inr al show ?thesis by (simp add: multiSendToken_def)
qed

lemma multiSendToken_entry_allowance_only:
  assumes "safeTransferFrom tk' = safeTransferFrom tk"
    and "allowance tk' (token_state w) token msg_sender this =
         allowance tk (token_state w) token msg_sender this"
  shows "multiSendToken tk' this msg_sender token recipients amounts w =
         multiSendToken tk this msg_sender token recipients amounts w"
proof -
  have tt: "token_transfers tk' this msg_sender token w recipients amounts =
        token_transfers tk this msg_sender token w recipients amounts"
    by (rule token_transfers_ignores_allowance [OF assms(1)])
  show ?thesis
    unfolding multiSendToken_def assms(2) tt by (rule refl)
qed

text \<open>
  Claim C7. For every call of \<open>multiSendToken\<close>: when the allowance the caller has given
  the executor is below the sum of all amounts, the transaction fails and changes nothing;
  when some entry has amount zero the transaction fails as a whole (the entry is not
  skipped); and the allowance is read once, in the state at entry: two token contracts
  that transfer alike and answer the allowance query alike in the entry state give the
  same outcome, whatever they answer in later states.
\<close>

theorem multiSendToken_allowance_and_zero_amounts:
  "(\<forall>allowed. allowance tk (token_state w) token msg_sender this = Some allowed \<and>
      unat allowed < total_of amounts
      \<longrightarrow> (\<exists>e. transact (multiSendToken tk this msg_sender token recipients amounts) w = (Some e, w)))
   \<and> (0 \<in> set amounts
      \<longrightarrow> (\<exists>e. transact (multiSendToken tk this msg_sender token recipients amounts) w = (Some e, w)))
   \<and> (\<forall>tk'. safeTransferFrom tk' = safeTransferFrom tk \<and>
         allowance tk' (token_state w) token msg_sender this =
         allowance tk (token_state w) token msg_sender this
      \<longrightarrow> multiSendToken tk' this msg_sender token recipients amounts w =
          multiSendToken tk this msg_sender token recipients amounts w)"
proof (intro conjI allI impI)
  fix allowed
  assume h: "allowance tk (token_state w) token msg_sender this = Some allowed \<and>
      unat allowed < total_of amounts"
  obtain e where "multiSendToken tk this msg_sender token recipients amounts w = Inl e"
    using multiSendToken_low_allowance [of tk w token msg_sender this allowed amounts recipients] h
    by blast
  then show "\<exists>e. transact (multiSendToken tk this msg_sender token recipients amounts) w = (Some e, w)"
    by (simp add: transact_def)
next
  assume "0 \<in> set amounts"
  from multiSendToken_zero_amount [OF this, of tk this msg_sender token recipients w]
  obtain e where "multiSendToken tk this msg_sender token recipients amounts w = Inl e"
    by blast
  then show "\<exists>e. transact (multiSendToken tk this msg_sender token recipients amounts) w = (Some e, w)"
    by (simp add: transact_def)
next
  fix tk' :: "'a erc20"
  assume h: "safeTransferFrom tk' = safeTransferFrom tk \<and>
         allowance tk' (token_state w) token msg_sender this =
         allowance tk (token_state w) token msg_sender this"
  show "multiSendToken tk' this msg_sender token recipients amounts w =
          multiSendToken tk this msg_sender token recipients amounts w"
    by (rule multiSendToken_entry_allowance_only) (simp_all add: h)
qed

lemma multi_token_loop_iff:
  "length ts = length as \<Longrightarrow>
   (\<exists>w'. multi_token_loop tk this msg_sender recipient w ts as = Inr w') \<longleftrightarrow>
   (\<forall>i<length ts. entry_passes tk this msg_sender recipient
        (state_after tk this msg_sender recipient (token_state w) (take i (zip ts as)))
        (ts ! i) (as ! i))"
proof (induction ts as arbitrary: w rule: list_induct2)
  case Nil
  then show ?case by simp
next
  case (Cons t ts a as)
  show ?case
  proof (cases "entry_passes tk this msg_sender recipient (token_state w) t a")
    case False
    then have "\<exists>e. multi_token_loop tk this msg_sender recipient w (t # ts) (a # as) = Inl e"
      by (auto simp: entry_passes_def word_greater_zero_iff split: option.splits)
    moreover from False have "\<not> (\<forall>i<length (t # ts). entry_passes tk this msg_sender recipient
        (state_after tk this msg_sender recipient (token_state w) (take i (zip (t # ts) (a # as))))
        ((t # ts) ! i) ((a # as) ! i))"
      by (auto intro!: exI [of _ 0])
    ultimately show ?thesis by auto
  next
    case True
    then obtain allowed s' where al: "allowance tk (token_state w) t msg_sender this = Some allowed"
      "a \<le> allowed" and tr: "safeTransferFrom tk (token_state w) t this msg_sender recipient a = Some s'"
      and nz: "t \<noteq> 0" "a \<noteq> 0"
      by (auto simp: entry_passes_def split: option.splits)
    let ?w1 = "w\<lparr>token_state := s', events := events w @
                 [\<lparr>ev_sender = msg_sender, ev_tokenAddress = t,
                   ev_totalAmount = a, ev_recipientCount = 1\<rparr>]\<rparr>"
    have step: "multi_token_loop tk this msg_sender recipient w (t # ts) (a # as) =
                multi_token_loop tk this msg_sender recipient ?w1 ts as"
      using al tr nz by (simp add: word_greater_zero_iff)
    have "(\<forall>i<length (t # ts). entry_passes tk this msg_sender recipient
        (state_after tk this msg_sender recipient (token_state w) (take i (zip (t # ts) (a # as))))
        ((t # ts) ! i) ((a # as) ! i)) \<longleftrightarrow>
      (\<forall>i<length ts. entry_passes tk this msg_sender recipient
        (state_after tk this msg_sender recipient s' (take i (zip ts as))) (ts ! i) (as ! i))"
      using True tr by (simp add: All_less_Suc2)
    with Cons.IH [of ?w1] step show ?thesis by simp
  qed
qed

lemma multi_token_loop_events:
  "multi_token_loop tk this msg_sender recipient w ts as = Inr w' \<Longrightarrow>
   events w' = events w @ map (token_event msg_sender) (zip ts as) \<and>
   native w' = native w \<and> payable w' = payable w"
proof (induction tk this msg_sender recipient w ts as rule: multi_token_loop.induct)
  case (1 tk this msg_sender recipient w amounts)
  then show ?case by simp
next
  case (2 tk this msg_sender recipient w t ts)
  then show ?case by (simp split: if_splits)
next
  case (3 tk this msg_sender recipient w t ts a as)
  from "3.prems" obtain allowed s' where
    al: "allowance tk (token_state w) t msg_sender this = Some allowed" "a \<le> allowed"
    and tr: "safeTransferFrom tk (token_state w) t this msg_sender recipient a = Some s'"
    and nz: "t \<noteq> 0" "0 < a"
    by (auto split: if_splits option.splits)
  with "3.prems" "3.IH" [of allowed s'] show ?case
    by (simp add: token_event_def)
qed

lemma multiTokenTransfer_iff:
  "(\<exists>w'. multiTokenTransfer tk this msg_sender tokens recipient amounts w = Inr w') \<longleftrightarrow>
     length tokens = length amounts \<and> 0 < length tokens \<and> recipient \<noteq> 0 \<and>
     (\<forall>i<length tokens. entry_passes tk this msg_sender recipient
        (state_after tk this msg_sender recipient (token_state w) (take i (zip tokens amounts)))
        (tokens ! i) (amounts ! i))"
proof (cases "length tokens = length amounts")
  case False
  then show ?thesis by (simp add: multiTokenTransfer_def)
next
  case True
  from multi_token_loop_iff [OF True, of tk this msg_sender recipient w] True
  show ?thesis by (simp add: multiTokenTransfer_def)
qed

lemma multiTokenTransfer_zero_amount:
  assumes "0 \<in> set amounts"
  shows "\<exists>e. multiTokenTransfer tk this msg_sender tokens recipient amounts w = Inl e"
proof (cases "length tokens = length amounts")
  case False
  then show ?thesis by (simp add: multiTokenTransfer_def)
next
  case True
  from assms obtain i where i: "i < length amounts" "amounts ! i = 0"
    by (auto simp: in_set_conv_nth)
  then have "\<not> entry_passes tk this msg_sender recipient
        (state_after tk this msg_sender recipient (token_state w) (take i (zip tokens amounts)))
        (tokens ! i) (amounts ! i)"
    by (simp add: entry_passes_def)
  with i True have "\<not> (\<exists>w'. multiTokenTransfer tk this msg_sender tokens recipient amounts w = Inr w')"
    unfolding multiTokenTransfer_iff by auto
  then show ?thesis
    by (cases "multiTokenTransfer tk this msg_sender tokens recipient amounts w") auto
qed

text \<open>
  Claim C8. For every call of \<open>multiTokenTransfer\<close>: it succeeds exactly when the arrays
  have the same non-zero length, the recipient is not the zero address, and every entry
  \<open>i\<close> passes in the token state left by the entries before it, where passing compares
  the allowance of \<open>tokens[i]\<close> with \<open>amounts[i]\<close> alone (no sum over entries, also when a
  token address repeats). An entry that does not pass makes the whole transaction fail
  with the ledger unchanged, and a successful call appends one event per entry, each with
  recipient count 1.
\<close>

theorem multiTokenTransfer_per_entry:
  "((\<exists>w'. transact (multiTokenTransfer tk this msg_sender tokens recipient amounts) w = (None, w')) \<longleftrightarrow>
      length tokens = length amounts \<and> 0 < length tokens \<and> recipient \<noteq> 0 \<and>
      (\<forall>i<length tokens. entry_passes tk this msg_sender recipient
         (state_after tk this msg_sender recipient (token_state w) (take i (zip tokens amounts)))
         (tokens ! i) (amounts ! i)))
   \<and> ((\<exists>i. i < length tokens \<and> i < length amounts \<and>
          \<not> entry_passes tk this msg_sender recipient
             (state_after tk this msg_sender recipient (token_state w) (take i (zip tokens amounts)))
             (tokens ! i) (amounts ! i))
       \<longrightarrow> (\<exists>e. transact (multiTokenTransfer tk this msg_sender tokens recipient amounts) w = (Some e, w)))
   \<and> (\<forall>w'. transact (multiTokenTransfer tk this msg_sender tokens recipient amounts) w = (None, w')
       \<longrightarrow> events w' = events w @ map (token_event msg_sender) (zip tokens amounts))"
proof -
  let ?call = "multiTokenTransfer tk this msg_sender tokens recipient amounts"
  let ?ok = "length tokens = length amounts \<and> 0 < length tokens \<and> recipient \<noteq> 0 \<and>
      (\<forall>i<length tokens. entry_passes tk this msg_sender recipient
         (state_after tk this msg_sender recipient (token_state w) (take i (zip tokens amounts)))
         (tokens ! i) (amounts ! i))"
  have tr: "(\<exists>w'. transact ?call w = (None, w')) \<longleftrightarrow> (\<exists>w'. ?call w = Inr w')"
    by (cases "?call w") (simp_all add: transact_def)
  have one: "(\<exists>w'. transact ?call w = (None, w')) \<longleftrightarrow> ?ok"
    unfolding tr by (rule multiTokenTransfer_iff)
  have two: "\<exists>e. transact ?call w = (Some e, w)"
    if "\<exists>i. i < length tokens \<and> i < length amounts \<and>
          \<not> entry_passes tk this msg_sender recipient
             (state_after tk this msg_sender recipient (token_state w) (take i (zip tokens amounts)))
             (tokens ! i) (amounts ! i)"
  proof -
    from that have "\<not> ?ok" by blast
    with multiTokenTransfer_iff [of tk this msg_sender tokens recipient amounts w]
    have "\<not> (\<exists>w'. ?call w = Inr w')" by blast
    then show ?thesis by (cases "?call w") (simp_all add: transact_def)
  qed
  have three: "events w' = events w @ map (token_event msg_sender) (zip tokens amounts)"
    if "transact ?call w = (None, w')" for w'
  proof -
    from that have r: "?call w = Inr w'"
      by (cases "?call w") (simp_all add: transact_def)
    then have "multi_token_loop tk this msg_sender recipient w tokens amounts = Inr w'"
      by (simp add: multiTokenTransfer_def split: if_splits)
    from multi_token_loop_events [OF this] show ?thesis by simp
  qed
  from one two three show ?thesis by blast
qed

lemma multiSendETH_success_iff:
  assumes "length recipients = length amounts" "0 < length recipients" "0 \<notin> set recipients"
    "unat msg_value = total_of amounts" "unat msg_value \<le> native w msg_sender"
  shows "(\<exists>w'. multiSendETH this msg_sender msg_value recipients amounts w = Inr w') \<longleftrightarrow>
         (\<forall>r\<in>set recipients. accepts_value this w r)"
proof
  assume ok: "\<exists>w'. multiSendETH this msg_sender msg_value recipients amounts w = Inr w'"
  show "\<forall>r\<in>set recipients. accepts_value this w r"
  proof (rule ccontr)
    assume "\<not> (\<forall>r\<in>set recipients. accepts_value this w r)"
    then have "\<exists>r\<in>set recipients. \<not> accepts_value this w r" by blast
    then have "\<exists>e. multiSendETH this msg_sender msg_value recipients amounts w = Inl e"
      by (intro multiSendETH_fails) blast
    with ok show False by auto
  qed
next
  assume "\<forall>r\<in>set recipients. accepts_value this w r"
  with assms multiSendETH_succeeds [of recipients amounts msg_value this w msg_sender]
  show "\<exists>w'. multiSendETH this msg_sender msg_value recipients amounts w = Inr w'"
    by blast
qed

text \<open>
  Claim C10. \<open>multiSendETH\<close> has no check on zero amounts: for matching non-empty arrays,
  non-zero recipients and an attached value equal to the sum (owned by the caller), the
  call succeeds exactly when every recipient takes its value transfer, whatever the
  amounts are, so an entry of amount zero is transferred like any other. The two token
  entry points fail on any entry of amount zero.
\<close>

theorem multiSendETH_accepts_zero_amounts:
  "(length recipients = length amounts \<and> 0 < length recipients \<and> 0 \<notin> set recipients \<and>
    unat msg_value = total_of amounts \<and> unat msg_value \<le> native w msg_sender
    \<longrightarrow> ((\<exists>w'. multiSendETH this msg_sender msg_value recipients amounts w = Inr w') \<longleftrightarrow>
         (\<forall>r\<in>set recipients. accepts_value this w r)))
   \<and> (0 \<in> set amounts
      \<longrightarrow> (\<exists>e. multiSendToken tk this msg_sender token recipients amounts w' = Inl e) \<and>
          (\<exists>e. multiTokenTransfer tk this msg_sender tokens recipient amounts w' = Inl e))"
proof (intro conjI impI)
  assume h: "length recipients = length amounts \<and> 0 < length recipients \<and> 0 \<notin> set recipients \<and>
    unat msg_value = total_of amounts \<and> unat msg_value \<le> native w msg_sender"
  show "(\<exists>w'. multiSendETH this msg_sender msg_value recipients amounts w = Inr w') \<longleftrightarrow>
         (\<forall>r\<in>set recipients. accepts_value this w r)"
    by (rule multiSendETH_success_iff) (use h in blast)+
next
  assume z: "0 \<in> set amounts"
  show "\<exists>e. multiSendToken tk this msg_sender token recipients amounts w' = Inl e"
    by (rule multiSendToken_zero_amount [OF z])
  show "\<exists>e. multiTokenTransfer tk this msg_sender tokens recipient amounts w' = Inl e"
    by (rule multiTokenTransfer_zero_amount [OF z])
qed

lemma example_allowance:
  "allowance std_token (token_state example_world) 16 1 100 = Some 10"
  by (simp add: std_token_def example_world_def example_ledger_def)

text \<open>
  Claim C7, at concrete calls: an allowance of 10 against a sum of 13, an entry of amount
  zero, and a token whose allowance answer differs after the first transfer.
\<close>

theorem multiSendToken_allowance_and_zero_amounts_witness:
  "allowance std_token (token_state example_world) 16 1 100 = Some 10 \<and>
   unat (10 :: uint256) < total_of [6, 7] \<and>
   (\<exists>e. transact (multiSendToken std_token 100 1 16 [2, 3] [6, 7]) example_world
          = (Some e, example_world)) \<and>
   (0 :: uint256) \<in> set [0, 3] \<and>
   (\<exists>e. transact (multiSendToken std_token 100 1 16 [2, 3] [0, 3]) example_world
          = (Some e, example_world)) \<and>
   multiSendToken (std_token\<lparr>allowance := \<lambda>l t owner spender. Some 10\<rparr>) 100 1 16 [2, 3] [4, 6]
       example_world =
   multiSendToken std_token 100 1 16 [2, 3] [4, 6] example_world"
proof -
  have h1: "allowance std_token (token_state example_world) 16 1 100 = Some 10 \<and>
      unat (10 :: uint256) < total_of [6, 7]"
    by (simp add: example_allowance total_of_def)
  have h2: "(0 :: uint256) \<in> set [0, 3]" by simp
  have h3: "safeTransferFrom (std_token\<lparr>allowance := \<lambda>l t owner spender. Some 10\<rparr>) =
        safeTransferFrom std_token \<and>
      allowance (std_token\<lparr>allowance := \<lambda>l t owner spender. Some 10\<rparr>)
        (token_state example_world) 16 1 100 =
      allowance std_token (token_state example_world) 16 1 100"
    by (simp add: example_allowance)
  note thm1 = multiSendToken_allowance_and_zero_amounts
      [where tk = std_token and w = example_world and token = 16 and msg_sender = 1
         and this = 100 and recipients = "[2, 3]" and amounts = "[6, 7]"]
  note thm2 = multiSendToken_allowance_and_zero_amounts
      [where tk = std_token and w = example_world and token = 16 and msg_sender = 1
         and this = 100 and recipients = "[2, 3]" and amounts = "[0, 3]"]
  note thm3 = multiSendToken_allowance_and_zero_amounts
      [where tk = std_token and w = example_world and token = 16 and msg_sender = 1
         and this = 100 and recipients = "[2, 3]" and amounts = "[4, 6]"]
  have c1: "\<exists>e. transact (multiSendToken std_token 100 1 16 [2, 3] [6, 7]) example_world
          = (Some e, example_world)"
    using thm1 h1 by blast
  have c2: "\<exists>e. transact (multiSendToken std_token 100 1 16 [2, 3] [0, 3]) example_world
          = (Some e, example_world)"
    using thm2 h2 by blast
  have c3: "multiSendToken (std_token\<lparr>allowance := \<lambda>l t owner spender. Some 10\<rparr>) 100 1 16 [2, 3] [4, 6]
       example_world =
     multiSendToken std_token 100 1 16 [2, 3] [4, 6] example_world"
    using thm3 h3 by blast
  from h1 h2 c1 c2 c3 show ?thesis by blast
qed

lemma example_entries_pass:
  "\<forall>i<length [16, 16 :: address]. entry_passes std_token 100 1 2
      (state_after std_token 100 1 2 (token_state example_world)
         (take i (zip [16, 16] [5, 5]))) ([16, 16] ! i) ([5, 5] ! i)"
  by (simp add: All_less_Suc2 entry_passes_def std_token_def example_world_def
        example_ledger_def)

lemma example_entry_fails:
  "\<not> entry_passes std_token 100 1 2
      (state_after std_token 100 1 2 (token_state example_world)
         (take 1 (zip [16, 16] [5, 6]))) ([16, 16] ! 1) ([5, 6] ! 1)"
  by (simp add: entry_passes_def std_token_def example_world_def example_ledger_def)

text \<open>
  Claim C8, at concrete calls with the same token twice: amounts 5 and 5 against an
  allowance of 10 succeed with two events; amounts 5 and 6 fail at the second entry and
  leave the ledger unchanged.
\<close>

theorem multiTokenTransfer_per_entry_witness:
  "entry_passes std_token 100 1 2 (token_state example_world) 16 5 \<and>
   entry_passes std_token 100 1 2
      (state_after std_token 100 1 2 (token_state example_world) [(16, 5)]) 16 5 \<and>
   (\<exists>w'. transact (multiTokenTransfer std_token 100 1 [16, 16] 2 [5, 5]) example_world = (None, w') \<and>
         events w' = [\<lparr>ev_sender = 1, ev_tokenAddress = 16, ev_totalAmount = 5, ev_recipientCount = 1\<rparr>,
                      \<lparr>ev_sender = 1, ev_tokenAddress = 16, ev_totalAmount = 5, ev_recipientCount = 1\<rparr>]) \<and>
   \<not> entry_passes std_token 100 1 2
      (state_after std_token 100 1 2 (token_state example_world)
         (take 1 (zip [16, 16] [5, 6]))) ([16, 16] ! 1) ([5, 6] ! 1) \<and>
   (\<exists>e. transact (multiTokenTransfer std_token 100 1 [16, 16] 2 [5, 6]) example_world
          = (Some e, example_world))"
proof -
  note good = multiTokenTransfer_per_entry
      [where tk = std_token and this = 100 and msg_sender = 1 and tokens = "[16, 16]"
         and recipient = 2 and amounts = "[5, 5]" and w = example_world]
  note bad = multiTokenTransfer_per_entry
      [where tk = std_token and this = 100 and msg_sender = 1 and tokens = "[16, 16]"
         and recipient = 2 and amounts = "[5, 6]" and w = example_world]
  have pre: "length [16, 16 :: address] = length [5, 5 :: uint256] \<and>
      0 < length [16, 16 :: address] \<and> (2 :: address) \<noteq> 0"
    by simp
  from good pre example_entries_pass
  obtain w' where w': "transact (multiTokenTransfer std_token 100 1 [16, 16] 2 [5, 5]) example_world = (None, w')"
    by blast
  with good have "events w' = events example_world @ map (token_event 1) (zip [16, 16] [5, 5])"
    by blast
  then have ev: "events w' =
      [\<lparr>ev_sender = 1, ev_tokenAddress = 16, ev_totalAmount = 5, ev_recipientCount = 1\<rparr>,
       \<lparr>ev_sender = 1, ev_tokenAddress = 16, ev_totalAmount = 5, ev_recipientCount = 1\<rparr>]"
    by (simp add: example_world_def token_event_def)
  have "\<exists>i. i < length [16, 16 :: address] \<and> i < length [5, 6 :: uint256] \<and>
          \<not> entry_passes std_token 100 1 2
             (state_after std_token 100 1 2 (token_state example_world)
                (take i (zip [16, 16] [5, 6]))) ([16, 16] ! i) ([5, 6] ! i)"
    using example_entry_fails by (intro exI [of _ 1]) simp
  with bad have "\<exists>e. transact (multiTokenTransfer std_token 100 1 [16, 16] 2 [5, 6]) example_world
          = (Some e, example_world)"
    by blast
  moreover have "entry_passes std_token 100 1 2 (token_state example_world) 16 5"
    "entry_passes std_token 100 1 2
      (state_after std_token 100 1 2 (token_state example_world) [(16, 5)]) 16 5"
    using example_entries_pass by (simp_all add: All_less_Suc2)
  ultimately show ?thesis using example_entry_fails w' ev by blast
qed

text \<open>
  Claim C10, at a concrete call with amounts 0 and 5: \<open>multiSendETH\<close> succeeds, both token
  entry points fail.
\<close>

theorem multiSendETH_accepts_zero_amounts_witness:
  "length [2, 3 :: address] = length [0, 5 :: uint256] \<and> 0 < length [2, 3 :: address] \<and>
   0 \<notin> set [2, 3 :: address] \<and> unat (5 :: uint256) = total_of [0, 5] \<and>
   unat (5 :: uint256) \<le> native example_world 1 \<and>
   accepts_value 100 example_world 2 \<and> accepts_value 100 example_world 3 \<and>
   (\<exists>w'. multiSendETH 100 1 5 [2, 3] [0, 5] example_world = Inr w') \<and>
   (0 :: uint256) \<in> set [0, 5] \<and>
   (\<exists>e. multiSendToken std_token 100 1 16 [2, 3] [0, 5] example_world = Inl e) \<and>
   (\<exists>e. multiTokenTransfer std_token 100 1 [16, 17] 2 [0, 5] example_world = Inl e)"
proof -
  have h: "length [2, 3 :: address] = length [0, 5 :: uint256] \<and> 0 < length [2, 3 :: address] \<and>
      0 \<notin> set [2, 3 :: address] \<and> unat (5 :: uint256) = total_of [0, 5] \<and>
      unat (5 :: uint256) \<le> native example_world 1"
    by (simp add: total_of_def example_world_def)
  have acc: "\<forall>r\<in>set [2, 3]. accepts_value 100 example_world r"
    by (simp add: accepts_value_def example_world_def)
  have z: "(0 :: uint256) \<in> set [0, 5]" by simp
  note inst = multiSendETH_accepts_zero_amounts
      [where recipients = "[2, 3]" and amounts = "[0, 5]" and msg_value = 5 and w = example_world
         and msg_sender = 1 and this = 100 and tk = std_token and token = 16
         and w' = example_world and tokens = "[16, 17]" and recipient = 2]
  from acc have "accepts_value 100 example_world 2" "accepts_value 100 example_world 3"
    by simp_all
  with inst h acc z show ?thesis by blast
qed

section \<open>Properties of the client\<close>

subsection \<open>The accumulator\<close>

lemma case_variants_reachable:
  "snd (addEthTransaction example_ethers ''0xe5c9d14d4d59ce293f3b5562c7ca7e19b0164df5'' ''0.00001''
     (snd (addEthTransaction example_ethers ''0xe5c9D14D4d59CE293F3b5562c7CA7E19b0164Df5'' ''0.00001''
        no_transactions))) = case_variants"
  by (simp add: addEthTransaction_def example_ethers_def isAddress_model_def is_hex_digit_def
        parseEther_def parseUnits_model_def no_transactions_def case_variants_def Let_def)

lemma foldl_insert_sum:
  "foldl (\<lambda>(u, t) tx. (insert (eth_to tx) u, t + eth_value tx)) (u0, t0) txs =
     (u0 \<union> set (map eth_to txs), t0 + sum_list (map eth_value txs))"
  by (induction txs arbitrary: u0 t0) auto

lemma foldl_insert_to:
  "foldl (\<lambda>u tx. insert (erc20_to tx) u) u0 txs = u0 \<union> set (map erc20_to txs)"
  by (induction txs arbitrary: u0) auto

lemma foldl_groups:
  "foldl (\<lambda>(c, u) (tokenAddress, tokenTxs).
            (c + length tokenTxs, foldl (\<lambda>u tx. insert (erc20_to tx) u) u tokenTxs)) (c0, u0) gs =
     (c0 + sum_list (map (length \<circ> snd) gs),
      u0 \<union> set (concat (map (\<lambda>(k, txs). map erc20_to txs) gs)))"
  by (induction gs arbitrary: c0 u0) (auto simp: foldl_insert_to)

text \<open>
  Claim C6, as the code has it. \<open>getBatchStatus\<close> counts the distinct recipient strings of
  the native and token entries exactly as they were supplied: the strings are compared
  character by character, with no case normalisation.
\<close>

theorem getBatchStatus_uniqueRecipients_exact_strings:
  "st_uniqueRecipients (getBatchStatus L s) = card (set (all_recipients s))"
proof -
  have native: "foldl (\<lambda>(u, t) tx. (insert (eth_to tx) u, t + eth_value tx)) ({}, 0) (eth s) =
      ({} \<union> set (map eth_to (eth s)), 0 + sum_list (map eth_value (eth s)))"
    by (rule foldl_insert_sum)
  have tokens: "foldl (\<lambda>(c, u) (tokenAddress, tokenTxs).
            (c + length tokenTxs, foldl (\<lambda>u tx. insert (erc20_to tx) u) u tokenTxs))
          (0, {} \<union> set (map eth_to (eth s))) (erc20 s) =
      (0 + sum_list (map (length \<circ> snd) (erc20 s)),
       ({} \<union> set (map eth_to (eth s))) \<union>
       set (concat (map (\<lambda>(k, txs). map erc20_to txs) (erc20 s))))"
    by (rule foldl_groups)
  have "st_uniqueRecipients (getBatchStatus L s) =
      card (({} \<union> set (map eth_to (eth s))) \<union>
            set (concat (map (\<lambda>(k, txs). map erc20_to txs) (erc20 s))))"
    unfolding getBatchStatus_def Let_def native prod.case tokens by simp
  then show ?thesis by (simp add: all_recipients_def)
qed

text \<open>
  Claim C6 as stated fails: for two native entries whose recipients differ only in letter
  case, \<open>getBatchStatus\<close> reports 2 unique recipients where the case-normalised count is 1.
\<close>

theorem uniqueRecipients_not_case_normalized:
  "st_uniqueRecipients (getBatchStatus example_ethers case_variants) = 2 \<and>
   uniqueRecipients_case_normalized case_variants = 1"
  by (simp add: getBatchStatus_def case_variants_def uniqueRecipients_case_normalized_def
        all_recipients_def lower_char_def)

lemma addEthTransaction_error_unchanged:
  "addEthTransaction L to v s = (Inl e, s') \<Longrightarrow> s' = s"
  by (auto simp: addEthTransaction_def split: if_splits sum.splits)

lemma addErc20Transaction_error_cases:
  "addErc20Transaction L tokenAddress to v decimals s = (Inl e, s') \<Longrightarrow>
     s' = s \<or> (map_of (erc20 s) tokenAddress = None \<and> (\<exists>msg. e = ErrorAddingErc20 msg) \<and>
               s' = s\<lparr>erc20 := erc20 s @ [(tokenAddress, [])]\<rparr>)"
  by (auto simp: addErc20Transaction_def Let_def split: if_splits sum.splits)

text \<open>
  Claim C5 at a failing input: on the empty batch, \<open>addErc20Transaction\<close> with two valid
  addresses and the malformed amount \<open>abc\<close> throws, and the batch now has an (empty) group
  for the token, so the token count of \<open>getBatchStatus\<close> went from 0 to 1.
\<close>

theorem addErc20Transaction_malformed_amount_mutates:
  "addErc20Transaction example_ethers ''0x132aAd982184489d78420756785f9a395c14dd15''
      ''0xad57aAcad13d86Daa8aD55f0e18B1b62377c0496'' ''abc'' 18 no_transactions =
     (Inl (ErrorAddingErc20 ''invalid FixedNumber string value''),
      \<lparr>eth = [], erc20 = [(''0x132aAd982184489d78420756785f9a395c14dd15'', [])]\<rparr>) \<and>
   st_erc20TokenCount (getBatchStatus example_ethers no_transactions) = 0 \<and>
   st_erc20TokenCount (getBatchStatus example_ethers
      (snd (addErc20Transaction example_ethers ''0x132aAd982184489d78420756785f9a395c14dd15''
         ''0xad57aAcad13d86Daa8aD55f0e18B1b62377c0496'' ''abc'' 18 no_transactions))) = 1"
  by (simp add: addErc20Transaction_def example_ethers_def isAddress_model_def is_hex_digit_def
        parseUnits_model_def no_transactions_def getBatchStatus_def Let_def)

lemma floor_margin: "\<lfloor>real c * (110 / 100)\<rfloor> = int ((c * 110) div 100)"
proof -
  have "real c * (110 / 100) = real (c * 110) / real 100" by simp
  then have "\<lfloor>real c * (110 / 100)\<rfloor> = \<lfloor>real (c * 110) / real 100\<rfloor>" by (rule arg_cong)
  also have "\<dots> = int ((c * 110) div 100)" by (rule floor_divide_of_nat_eq)
  finally show ?thesis .
qed

lemma spec_margin_example: "cost_with_margin_spec 96394 = 106034"
  by (simp add: cost_with_margin_spec_def ceiling_eq_iff)

subsection \<open>The asynchronous functions\<close>

lemma example_batch_built:
  "snd (addErc20Transaction example_ethers ''0x132aAd982184489d78420756785f9a395c14dd15''
          ''0xad57aAcad13d86Daa8aD55f0e18B1b62377c0496'' ''100'' 6
     (snd (addEthTransaction example_ethers ''0xad57aAcad13d86Daa8aD55f0e18B1b62377c0496'' ''0.00005''
     (snd (addEthTransaction example_ethers ''0xe5c9D14D4d59CE293F3b5562c7CA7E19b0164Df5'' ''0.00001''
        no_transactions))))) = example_batch"
  by (simp add: addEthTransaction_def addErc20Transaction_def example_ethers_def
        isAddress_model_def is_hex_digit_def parseEther_def parseUnits_model_def
        no_transactions_def example_batch_def example_token_txs_def Let_def)

lemmas io_defs = io_bind_def io_return_def io_throw_def io_catch_def perform_def

lemmas example_defs = example_network_def example_config_def no_options_def example_batch_def
  example_token_txs_def example_receipt_def poor_network_def other_poor_network_def

lemma estimate_example:
  "estimateGas example_ethers example_network example_config no_options example_batch [] =
     (Inr \<lparr>est_ethTransactions = 2, est_erc20Transactions = 1, est_totalTransactions = 3,
           est_eth = Some \<lparr>gasEstimate = 96394, gasWithBuffer = 106033,
                           est_totalValue = formatEther_model 60000000000000\<rparr>,
           est_gasPrice = 20000000000\<rparr>,
      [Connected, FeeData (Some 20000000000),
       EthGasEstimated [''0xe5c9D14D4d59CE293F3b5562c7CA7E19b0164Df5'',
                        ''0xad57aAcad13d86Daa8aD55f0e18B1b62377c0496'']
         [10000000000000, 50000000000000] 60000000000000 96394])"
  by (simp add: estimateGas_def getConnection_def initializeConnection_def falsy_def given_def
        io_defs example_defs example_ethers_def Let_def)

lemma send_example:
  "\<exists>r n. sendBatchTransaction example_network example_config no_options example_batch [] = (Inr r, n)"
  by (simp add: sendBatchTransaction_def sendEthGroup_def sendTokenGroup_def
        checkAndApproveToken_def getConnection_def initializeConnection_def falsy_def given_def
        io_defs example_defs Let_def)

lemma io_bindE:
  assumes "io_bind m f h = (r, n)"
  obtains (throws) e where "m h = (Inl e, n)" "r = Inl e"
    | (continues) x n1 n2 where "m h = (Inr x, n1)" "f x (h @ n1) = (r, n2)" "n = n1 @ n2"
  using assms by (auto simp: io_bind_def split: prod.splits sum.splits)

lemma io_catchE:
  assumes "io_catch wrap m h = (r, n)"
  obtains (caught) e where "m h = (Inl e, n)" "r = Inl (wrap e)"
    | (passed) x where "m h = (Inr x, n)" "r = Inr x"
  using assms by (auto simp: io_catch_def split: prod.splits sum.splits)

lemma performE:
  assumes "perform call ev h = (r, n)"
  obtains (threw) msg where "call h = Inl msg" "r = Inl (Thrown msg)" "n = [Failed msg]"
    | (answered) x where "call h = Inr x" "r = Inr x" "n = [ev x]"
  using assms by (auto simp: perform_def split: sum.splits)

lemma io_return_eq [simp]: "io_return x h = (r, n) \<longleftrightarrow> r = Inr x \<and> n = []"
  by (auto simp: io_return_def)

lemma io_throw_eq [simp]: "io_throw e h = (r, n) \<longleftrightarrow> r = Inl e \<and> n = []"
  by (auto simp: io_throw_def)

lemma foldl_group_count:
  "foldl (\<lambda>c (tokenAddress, tokenTxs). c + length tokenTxs) c0 gs =
     c0 + sum_list (map (\<lambda>(k, txs). length txs) gs)"
  by (induction gs arbitrary: c0) auto

lemma getConnectionE:
  assumes "getConnection net cfg h = (r, n)"
  obtains (ready) "r = Inr ()" "n = [] \<or> n = [Connected]"
    | (config) "r = Inl ContractAddressRequired \<or> r = Inl ProviderUrlRequired \<or>
                r = Inl PrivateKeyRequired" "n = []"
    | (threw) msg where "r = Inl (Thrown msg)" "n = [Failed msg]"
  using assms
  by (auto simp: getConnection_def initializeConnection_def perform_def
           split: if_splits sum.splits)

lemma estimateGas_empty:
  assumes "batch_size s = 0"
  shows "estimateGas L net cfg opts s h =
     (case getConnection net cfg h of
        (Inl e, n) \<Rightarrow> (Inl e, n)
      | (Inr x, n) \<Rightarrow> (Inl NoTransactionsToEstimate, n))"
  using assms
  by (simp add: estimateGas_def io_bind_def io_throw_def batch_size_def foldl_group_count
           split: prod.splits sum.splits)

lemma sendBatchTransaction_empty:
  assumes "batch_size s = 0"
  shows "sendBatchTransaction net cfg opts s h =
     (case getConnection net cfg h of
        (Inl e, n) \<Rightarrow> (Inl e, n)
      | (Inr x, n) \<Rightarrow> (Inl NoTransactionsToSend, n))"
  using assms
  by (simp add: sendBatchTransaction_def io_bind_def io_throw_def batch_size_def foldl_group_count
           split: prod.splits sum.splits)

lemma estimateGas_nonempty:
  assumes "batch_size s \<noteq> 0"
  shows "fst (estimateGas L net cfg opts s h) \<noteq> Inl NoTransactionsToEstimate"
proof
  assume bad: "fst (estimateGas L net cfg opts s h) = Inl NoTransactionsToEstimate"
  obtain r n where run: "estimateGas L net cfg opts s h = (r, n)" by (cases "estimateGas L net cfg opts s h")
  with bad have r: "r = Inl NoTransactionsToEstimate" by simp
  from assms have ne: "length (eth s) + foldl (\<lambda>c (tokenAddress, tokenTxs). c + length tokenTxs) 0 (erc20 s) \<noteq> 0"
    by (simp add: batch_size_def foldl_group_count)
  from run show False unfolding estimateGas_def
  proof (cases rule: io_bindE)
    case (throws e)
    from throws(1) show False
      by (cases rule: getConnectionE) (use throws(2) r in auto)
  next
    case (continues x n1 n2)
    from continues(2) ne show False
      by (auto simp: Let_def r elim!: io_bindE io_catchE performE split: option.splits if_splits)
  qed
qed

lemma sendBatchTransaction_nonempty:
  assumes "batch_size s \<noteq> 0"
  shows "fst (sendBatchTransaction net cfg opts s h) \<noteq> Inl NoTransactionsToSend"
proof
  assume bad: "fst (sendBatchTransaction net cfg opts s h) = Inl NoTransactionsToSend"
  obtain r n where run: "sendBatchTransaction net cfg opts s h = (r, n)"
    by (cases "sendBatchTransaction net cfg opts s h")
  with bad have r: "r = Inl NoTransactionsToSend" by simp
  from assms have ne: "foldl (\<lambda>c (tokenAddress, tokenTxs). c + length tokenTxs) (length (eth s)) (erc20 s) \<noteq> 0"
    by (simp add: batch_size_def foldl_group_count)
  from run show False unfolding sendBatchTransaction_def
  proof (cases rule: io_bindE)
    case (throws e)
    from throws(1) show False
      by (cases rule: getConnectionE) (use throws(2) r in auto)
  next
    case (continues x n1 n2)
    from continues(2) ne show False
      by (auto simp: Let_def r elim!: io_catchE)
  qed
qed

text \<open>
  Claim C9, as the code has it. Both functions obtain the connection before they count
  the batch. On an empty batch neither ever returns a result: when the connection is
  available they fail with the empty-batch error (\<open>No transactions to estimate gas for\<close>,
  \<open>No transactions to send\<close>), and when obtaining the connection fails they fail with that
  error instead. On a non-empty batch the empty-batch error is never raised.
\<close>

theorem empty_batch_rejected_after_connection:
  "(batch_size s = 0 \<longrightarrow>
      (\<forall>r. fst (estimateGas L net cfg opts s h) \<noteq> Inr r) \<and>
      (\<forall>r. fst (sendBatchTransaction net cfg opts s h) \<noteq> Inr r) \<and>
      (fst (getConnection net cfg h) = Inr () \<longrightarrow>
         fst (estimateGas L net cfg opts s h) = Inl NoTransactionsToEstimate \<and>
         fst (sendBatchTransaction net cfg opts s h) = Inl NoTransactionsToSend) \<and>
      (\<forall>e. fst (getConnection net cfg h) = Inl e \<longrightarrow>
         fst (estimateGas L net cfg opts s h) = Inl e \<and>
         fst (sendBatchTransaction net cfg opts s h) = Inl e))
   \<and> (batch_size s \<noteq> 0 \<longrightarrow>
      fst (estimateGas L net cfg opts s h) \<noteq> Inl NoTransactionsToEstimate \<and>
      fst (sendBatchTransaction net cfg opts s h) \<noteq> Inl NoTransactionsToSend)"
proof (intro conjI impI)
  assume e: "batch_size s = 0"
  show "\<forall>r. fst (estimateGas L net cfg opts s h) \<noteq> Inr r"
    by (simp add: estimateGas_empty [OF e] split: prod.splits sum.splits)
  show "\<forall>r. fst (sendBatchTransaction net cfg opts s h) \<noteq> Inr r"
    by (simp add: sendBatchTransaction_empty [OF e] split: prod.splits sum.splits)
  show "fst (estimateGas L net cfg opts s h) = Inl NoTransactionsToEstimate"
    if "fst (getConnection net cfg h) = Inr ()"
    using that by (auto simp: estimateGas_empty [OF e] split: prod.splits sum.splits)
  show "fst (sendBatchTransaction net cfg opts s h) = Inl NoTransactionsToSend"
    if "fst (getConnection net cfg h) = Inr ()"
    using that by (auto simp: sendBatchTransaction_empty [OF e] split: prod.splits sum.splits)
  show "\<forall>e. fst (getConnection net cfg h) = Inl e \<longrightarrow>
         fst (estimateGas L net cfg opts s h) = Inl e \<and>
         fst (sendBatchTransaction net cfg opts s h) = Inl e"
    by (auto simp: estimateGas_empty [OF e] sendBatchTransaction_empty [OF e]
          split: prod.splits sum.splits)
next
  assume "batch_size s \<noteq> 0"
  then show "fst (estimateGas L net cfg opts s h) \<noteq> Inl NoTransactionsToEstimate"
    by (rule estimateGas_nonempty)
next
  assume "batch_size s \<noteq> 0"
  then show "fst (sendBatchTransaction net cfg opts s h) \<noteq> Inl NoTransactionsToSend"
    by (rule sendBatchTransaction_nonempty)
qed

text \<open>
  Claim C9 as stated fails: with a configuration that lacks the contract address, both
  functions on the empty batch fail with \<open>MultiSend contract address is required\<close>, not
  with the empty-batch error.
\<close>

theorem empty_batch_connection_error_first:
  "batch_size no_transactions = 0 \<and>
   fst (estimateGas example_ethers example_network
          (example_config\<lparr>multiSendContractAddress := None\<rparr>) no_options no_transactions [])
     = Inl ContractAddressRequired \<and>
   fst (sendBatchTransaction example_network
          (example_config\<lparr>multiSendContractAddress := None\<rparr>) no_options no_transactions [])
     = Inl ContractAddressRequired"
  by (simp add: estimateGas_def sendBatchTransaction_def getConnection_def
        initializeConnection_def falsy_def io_defs example_defs batch_size_def
        no_transactions_def)

lemma pending_approvals_append:
  "pending_approvals p (xs @ ys) = pending_approvals (pending_approvals p xs) ys"
  by (induction p xs rule: pending_approvals.induct) simp_all

lemma approvals_finalized_first_append:
  "approvals_finalized_first p (xs @ ys) \<longleftrightarrow>
     approvals_finalized_first p xs \<and> approvals_finalized_first (pending_approvals p xs) ys"
  by (induction p xs rule: approvals_finalized_first.induct)
     (simp_all add: pending_approvals_append)

lemma orderlyI:
  assumes "\<And>h r n. m h = (r, n) \<Longrightarrow> approvals_finalized_first [] n"
    and "\<And>h x n. m h = (Inr x, n) \<Longrightarrow> pending_approvals [] n = []"
  shows "orderly m"
  using assms by (auto simp: orderly_def)

lemma orderlyD:
  assumes "orderly m" "m h = (r, n)"
  shows "approvals_finalized_first [] n" and "\<And>x. r = Inr x \<Longrightarrow> pending_approvals [] n = []"
  using assms by (auto simp: orderly_def)

lemma orderly_return [intro!, simp]: "orderly (io_return x)"
  by (simp add: orderly_def)

lemma orderly_throw [intro!, simp]: "orderly (io_throw e)"
  by (simp add: orderly_def)

lemma orderly_bind [intro!]:
  assumes m: "orderly m" and f: "\<And>x. orderly (f x)"
  shows "orderly (io_bind m f)"
proof (rule orderlyI)
  fix h r n
  assume "io_bind m f h = (r, n)"
  then show "approvals_finalized_first [] n"
  proof (cases rule: io_bindE)
    case (throws e)
    with m show ?thesis by (auto dest: orderlyD)
  next
    case (continues x n1 n2)
    from orderlyD [OF m continues(1)] orderlyD [OF f continues(2)] continues(3)
    show ?thesis by (simp add: approvals_finalized_first_append)
  qed
next
  fix h x n
  assume "io_bind m f h = (Inr x, n)"
  then show "pending_approvals [] n = []"
  proof (cases rule: io_bindE)
    case (throws e)
    then show ?thesis by simp
  next
    case (continues y n1 n2)
    from orderlyD [OF m continues(1)] orderlyD [OF f continues(2)] continues(3)
    show ?thesis by (simp add: pending_approvals_append)
  qed
qed

lemma orderly_catch [intro!]:
  assumes "orderly m"
  shows "orderly (io_catch wrap m)"
  using assms by (auto simp: orderly_def elim!: io_catchE)

lemma orderly_perform:
  assumes "\<And>x. \<not> is_approval (ev x)"
  shows "orderly (perform call ev)"
proof (rule orderlyI)
  fix h r n
  assume "perform call ev h = (r, n)"
  then show "approvals_finalized_first [] n"
  proof (cases rule: performE)
    case (threw msg)
    then show ?thesis by simp
  next
    case (answered x)
    with assms [of x] show ?thesis by (cases "ev x") (simp_all add: is_approval_def)
  qed
next
  fix h x n
  assume "perform call ev h = (Inr x, n)"
  then show "pending_approvals [] n = []"
  proof (cases rule: performE)
    case (threw msg)
    then show ?thesis by simp
  next
    case (answered y)
    with assms [of y] show ?thesis by (cases "ev y") (simp_all add: is_approval_def)
  qed
qed

lemma orderly_approve_then_wait:
  "orderly (io_bind (perform approve (ApproveSubmitted t spender amount)) (\<lambda>approveTx.
            io_bind (perform (\<lambda>h. wait h approveTx) (Finalized approveTx)) (\<lambda>_. io_return True)))"
  by (rule orderlyI) (auto elim!: io_bindE performE)

lemma orderly_if:
  assumes "c \<Longrightarrow> orderly a" "\<not> c \<Longrightarrow> orderly b"
  shows "orderly (if c then a else b)"
  using assms by simp

lemma orderly_case_option:
  assumes "x = None \<Longrightarrow> orderly a" "\<And>v. x = Some v \<Longrightarrow> orderly (b v)"
  shows "orderly (case x of None \<Rightarrow> a | Some v \<Rightarrow> b v)"
  using assms by (cases x) simp_all

lemma orderly_getConnection: "orderly (getConnection net cfg)"
  by (rule orderlyI) (auto elim!: getConnectionE)

lemma orderly_checkAndApproveToken: "orderly (checkAndApproveToken net cfg tokenAddress tokenTxs)"
  unfolding checkAndApproveToken_def Let_def
  by (intro orderly_approve_then_wait orderly_if orderly_bind orderly_getConnection
        orderly_perform orderly_return orderly_throw)
     (simp_all add: is_approval_def)

lemma orderly_sendEthGroup: "orderly (sendEthGroup net opts txs)"
  unfolding sendEthGroup_def Let_def
  by (intro orderly_case_option orderly_bind orderly_perform orderly_return)
     (simp_all add: is_approval_def)

lemma orderly_sendTokenGroup: "orderly (sendTokenGroup net cfg opts tokenAddress tokenTxs)"
  unfolding sendTokenGroup_def Let_def
  by (intro orderly_case_option orderly_bind orderly_checkAndApproveToken orderly_perform
        orderly_return)
     (simp_all add: is_approval_def)

lemma orderly_sendTokenGroups: "orderly (sendTokenGroups net cfg opts gs acc)"
proof (induction gs arbitrary: acc)
  case Nil
  then show ?case by simp
next
  case (Cons g gs)
  obtain tokenAddress tokenTxs where g: "g = (tokenAddress, tokenTxs)" by (cases g)
  show ?case unfolding g sendTokenGroups.simps
    by (intro orderly_if orderly_bind orderly_sendTokenGroup Cons.IH)
qed

lemma orderly_sendBatchTransaction: "orderly (sendBatchTransaction net cfg opts s)"
  unfolding sendBatchTransaction_def Let_def
  by (intro orderly_if orderly_catch orderly_bind orderly_getConnection orderly_sendEthGroup
        orderly_sendTokenGroups orderly_return orderly_throw)

lemma foldl_values:
  "foldl (\<lambda>sum tx. sum + erc20_value tx) a tokenTxs = a + required_total tokenTxs"
  by (induction tokenTxs arbitrary: a) (simp_all add: required_total_def)

lemma checkAndApproveToken_protocol:
  assumes "checkAndApproveToken net cfg t tokenTxs h = (r, n)"
  shows "follows_protocol t (required_total tokenTxs) Start n \<and>
         (\<forall>x. r = Inr x \<longrightarrow>
            (\<forall>es. follows_protocol t (required_total tokenTxs) Start (n @ es) =
                  follows_protocol t (required_total tokenTxs) AllowanceSufficient es) \<or>
            (\<forall>es. follows_protocol t (required_total tokenTxs) Start (n @ es) =
                  follows_protocol t (required_total tokenTxs) ApprovalFinalized es))"
  using assms unfolding checkAndApproveToken_def Let_def foldl_values
  by (auto elim!: io_bindE performE getConnectionE split: if_splits)

lemma checkAndApproveToken_insufficient:
  assumes "checkAndApproveToken net cfg t tokenTxs h = (r, n)"
    and "BalanceOf t' owner b \<in> set n" and "b < required_total tokenTxs"
  shows "r = Inl (InsufficientTokenBalance t) \<and> list_all (\<lambda>e. \<not> is_submission e) n"
  using assms unfolding checkAndApproveToken_def Let_def foldl_values
  by (auto simp: is_submission_def elim!: io_bindE performE getConnectionE split: if_splits)

lemma sendTokenGroup_protocol:
  assumes "sendTokenGroup net cfg opts t tokenTxs h = (r, n)"
  shows "follows_protocol t (required_total tokenTxs) Start n"
  using assms unfolding sendTokenGroup_def Let_def
proof (cases rule: io_bindE)
  case (throws e)
  from checkAndApproveToken_protocol [OF throws(1)] show ?thesis by simp
next
  case (continues x n1 n2)
  from checkAndApproveToken_protocol [OF continues(1)]
  have "follows_protocol t (required_total tokenTxs) Start (n1 @ n2) =
          follows_protocol t (required_total tokenTxs) AllowanceSufficient n2 \<or>
        follows_protocol t (required_total tokenTxs) Start (n1 @ n2) =
          follows_protocol t (required_total tokenTxs) ApprovalFinalized n2"
    by blast
  moreover from continues(2)
  have "follows_protocol t (required_total tokenTxs) AllowanceSufficient n2 \<and>
        follows_protocol t (required_total tokenTxs) ApprovalFinalized n2"
    by (auto elim!: io_bindE performE split: option.splits)
  ultimately show ?thesis using continues(3) by auto
qed

lemma sendTokenGroup_insufficient:
  assumes "sendTokenGroup net cfg opts t tokenTxs h = (r, n)"
    and "BalanceOf t' owner b \<in> set n" and "b < required_total tokenTxs"
  shows "r = Inl (InsufficientTokenBalance t) \<and> list_all (\<lambda>e. \<not> is_submission e) n"
  using assms(1) unfolding sendTokenGroup_def Let_def
proof (cases rule: io_bindE)
  case (throws e)
  from checkAndApproveToken_insufficient [OF throws(1) assms(2,3)] throws(2)
  show ?thesis by simp
next
  case (continues x n1 n2)
  from continues(2) have "BalanceOf t' owner b \<notin> set n2"
    by (auto elim!: io_bindE performE split: option.splits)
  with assms(2) continues(3) have "BalanceOf t' owner b \<in> set n1" by simp
  from checkAndApproveToken_insufficient [OF continues(1) this assms(3)]
  show ?thesis by simp
qed

lemma emitsI:
  assumes "\<And>h r n. m h = (r, n) \<Longrightarrow> list_all P n"
  shows "emits P m"
  using assms by (auto simp: emits_def)

lemma emitsD: "emits P m \<Longrightarrow> m h = (r, n) \<Longrightarrow> list_all P n"
  by (auto simp: emits_def)

lemma emits_return: "emits P (io_return x)"
  by (simp add: emits_def)

lemma emits_throw: "emits P (io_throw e)"
  by (simp add: emits_def)

lemma emits_bind:
  assumes "emits P m" "\<And>x. emits P (f x)"
  shows "emits P (io_bind m f)"
  by (rule emitsI) (auto elim!: io_bindE dest: emitsD [OF assms(1)] emitsD [OF assms(2)])

lemma emits_catch:
  assumes "emits P m"
  shows "emits P (io_catch wrap m)"
  by (rule emitsI) (auto elim!: io_catchE dest: emitsD [OF assms])

lemma emits_if:
  assumes "c \<Longrightarrow> emits P a" "\<not> c \<Longrightarrow> emits P b"
  shows "emits P (if c then a else b)"
  using assms by simp

lemma emits_case_option:
  assumes "x = None \<Longrightarrow> emits P a" "\<And>v. x = Some v \<Longrightarrow> emits P (b v)"
  shows "emits P (case x of None \<Rightarrow> a | Some v \<Rightarrow> b v)"
  using assms by (cases x) simp_all

lemma emits_perform:
  assumes "\<And>x. P (ev x)" "\<And>msg. P (Failed msg)"
  shows "emits P (perform call ev)"
  by (rule emitsI) (auto elim!: performE simp: assms)

lemma emits_getConnection:
  assumes "P Connected" "\<And>msg. P (Failed msg)"
  shows "emits P (getConnection net cfg)"
  by (rule emitsI) (auto elim!: getConnectionE simp: assms)

lemmas emits_intros = emits_if emits_case_option emits_bind emits_catch emits_return emits_throw

lemma emits_approval_checkAndApproveToken:
  assumes "(t, tokenTxs) \<in> set gs"
  shows "emits (approval_for gs) (checkAndApproveToken net cfg t tokenTxs)"
  unfolding checkAndApproveToken_def Let_def foldl_values
  by (intro emits_intros emits_perform emits_getConnection)
     (use assms in \<open>auto simp: approval_for_def list_ex_iff\<close>)

lemma emits_approval_sendTokenGroup:
  assumes "(t, tokenTxs) \<in> set gs"
  shows "emits (approval_for gs) (sendTokenGroup net cfg opts t tokenTxs)"
  unfolding sendTokenGroup_def Let_def
  by (intro emits_intros emits_perform emits_approval_checkAndApproveToken [OF assms])
     (simp_all add: approval_for_def)

lemma emits_approval_sendTokenGroups:
  assumes "set gs' \<subseteq> set gs"
  shows "emits (approval_for gs) (sendTokenGroups net cfg opts gs' acc)"
  using assms
proof (induction gs' arbitrary: acc)
  case Nil
  then show ?case by (simp add: emits_return)
next
  case (Cons g gs')
  obtain t tokenTxs where g: "g = (t, tokenTxs)" by (cases g)
  with Cons.prems have "(t, tokenTxs) \<in> set gs" "set gs' \<subseteq> set gs" by auto
  then show ?case unfolding g sendTokenGroups.simps
    by (intro emits_intros emits_approval_sendTokenGroup Cons.IH)
qed

lemma emits_approval_sendEthGroup: "emits (approval_for gs) (sendEthGroup net opts txs)"
  unfolding sendEthGroup_def Let_def
  by (intro emits_intros emits_perform) (simp_all add: approval_for_def)

lemma emits_approval_sendBatchTransaction:
  "emits (approval_for (erc20 s)) (sendBatchTransaction net cfg opts s)"
  unfolding sendBatchTransaction_def Let_def
  by (intro emits_intros emits_getConnection emits_approval_sendEthGroup
        emits_approval_sendTokenGroups)
     (simp_all add: approval_for_def)

text \<open>
  Claim C3. For every token group that \<open>sendBatchTransaction\<close> processes (the loop body
  \<open>sendTokenGroup\<close>), whatever the node answers: the history of the group follows the
  automaton \<open>follows_protocol\<close>: the balance is read first, the allowance only after a
  sufficient balance, an approval is submitted only after an allowance below the required
  total and for exactly that total, and the transfer is submitted only after a sufficient
  allowance or after the approval has been seen finalized. A balance below the required
  total makes the group fail with \<open>Insufficient token balance\<close> with nothing submitted. For
  the whole batch, no token transfer is submitted while an approval is pending, and every
  approval is for exactly the required total of one of the batch's groups.
\<close>

theorem token_group_authorization_order:
  "(sendTokenGroup net cfg opts t tokenTxs h = (r, n) \<longrightarrow>
      follows_protocol t (required_total tokenTxs) Start n \<and>
      (\<forall>t' owner b. BalanceOf t' owner b \<in> set n \<and> b < required_total tokenTxs \<longrightarrow>
         r = Inl (InsufficientTokenBalance t) \<and> list_all (\<lambda>e. \<not> is_submission e) n))
   \<and> (sendBatchTransaction net cfg opts s h' = (r', n') \<longrightarrow>
      approvals_finalized_first [] n' \<and> list_all (approval_for (erc20 s)) n')"
proof (intro conjI impI allI)
  assume run: "sendTokenGroup net cfg opts t tokenTxs h = (r, n)"
  show "follows_protocol t (required_total tokenTxs) Start n"
    by (rule sendTokenGroup_protocol [OF run])
  fix t' owner b
  assume low: "BalanceOf t' owner b \<in> set n \<and> b < required_total tokenTxs"
  from sendTokenGroup_insufficient [OF run] low
  show "r = Inl (InsufficientTokenBalance t)" and "list_all (\<lambda>e. \<not> is_submission e) n"
    by blast+
next
  assume run: "sendBatchTransaction net cfg opts s h' = (r', n')"
  show "approvals_finalized_first [] n'"
    by (rule orderlyD(1) [OF orderly_sendBatchTransaction run])
  show "list_all (approval_for (erc20 s)) n'"
    by (rule emitsD [OF emits_approval_sendBatchTransaction run])
qed

lemmas client_defs = sendBatchTransaction_def sendEthGroup_def sendTokenGroup_def
  checkAndApproveToken_def estimateGas_def getConnection_def initializeConnection_def
  falsy_def given_def receipt_of_def

lemma example_group_run:
  "sendTokenGroup example_network example_config no_options
      ''0x132aAd982184489d78420756785f9a395c14dd15'' example_token_txs [] =
   (Inr (receipt_of (example_receipt ''0xb1'') 1),
    [Connected,
     SignerAddress ''0xe5c9D14D4d59CE293F3b5562c7CA7E19b0164Df5'',
     BalanceOf ''0x132aAd982184489d78420756785f9a395c14dd15''
       ''0xe5c9D14D4d59CE293F3b5562c7CA7E19b0164Df5'' 1000000000,
     ContractAddress ''0x34d10D1Ab8204d51E5dc5dCc31b6A7B14be697c3'',
     Allowance ''0x132aAd982184489d78420756785f9a395c14dd15''
       ''0xe5c9D14D4d59CE293F3b5562c7CA7E19b0164Df5''
       ''0x34d10D1Ab8204d51E5dc5dCc31b6A7B14be697c3'' 0,
     ContractAddress ''0x34d10D1Ab8204d51E5dc5dCc31b6A7B14be697c3'',
     ApproveSubmitted ''0x132aAd982184489d78420756785f9a395c14dd15''
       ''0x34d10D1Ab8204d51E5dc5dCc31b6A7B14be697c3'' 100000000 ''0xa1'',
     Finalized ''0xa1'' (example_receipt ''0xa1''),
     TokenGasEstimated ''0x132aAd982184489d78420756785f9a395c14dd15''
       [''0xad57aAcad13d86Daa8aD55f0e18B1b62377c0496''] [100000000] 120000,
     TokenBatchSubmitted ''0x132aAd982184489d78420756785f9a395c14dd15''
       [''0xad57aAcad13d86Daa8aD55f0e18B1b62377c0496''] [100000000] 132000 None ''0xb1'',
     Finalized ''0xb1'' (example_receipt ''0xb1'')])"
  by (simp add: client_defs io_defs example_defs Let_def)

lemma poor_group_run:
  "sendTokenGroup poor_network example_config no_options
      ''0x132aAd982184489d78420756785f9a395c14dd15'' example_token_txs [] =
   (Inl (InsufficientTokenBalance ''0x132aAd982184489d78420756785f9a395c14dd15''),
    [Connected,
     SignerAddress ''0xe5c9D14D4d59CE293F3b5562c7CA7E19b0164Df5'',
     BalanceOf ''0x132aAd982184489d78420756785f9a395c14dd15''
       ''0xe5c9D14D4d59CE293F3b5562c7CA7E19b0164Df5'' 0])"
  by (simp add: client_defs io_defs example_defs Let_def)

lemma example_batch_run:
  "sendBatchTransaction example_network example_config no_options example_batch [] =
   (Inr \<lparr>ethTransaction = Some (receipt_of (example_receipt ''0xe1'') 2),
         erc20Transactions = [(''0x132aAd982184489d78420756785f9a395c14dd15'',
                               receipt_of (example_receipt ''0xb1'') 1)],
         totalTransactions = 3\<rparr>,
    [Connected,
     EthGasEstimated [''0xe5c9D14D4d59CE293F3b5562c7CA7E19b0164Df5'',
                      ''0xad57aAcad13d86Daa8aD55f0e18B1b62377c0496'']
       [10000000000000, 50000000000000] 60000000000000 96394,
     EthBatchSubmitted [''0xe5c9D14D4d59CE293F3b5562c7CA7E19b0164Df5'',
                        ''0xad57aAcad13d86Daa8aD55f0e18B1b62377c0496'']
       [10000000000000, 50000000000000] 60000000000000 106033 None ''0xe1'',
     Finalized ''0xe1'' (example_receipt ''0xe1''),
     SignerAddress ''0xe5c9D14D4d59CE293F3b5562c7CA7E19b0164Df5'',
     BalanceOf ''0x132aAd982184489d78420756785f9a395c14dd15''
       ''0xe5c9D14D4d59CE293F3b5562c7CA7E19b0164Df5'' 1000000000,
     ContractAddress ''0x34d10D1Ab8204d51E5dc5dCc31b6A7B14be697c3'',
     Allowance ''0x132aAd982184489d78420756785f9a395c14dd15''
       ''0xe5c9D14D4d59CE293F3b5562c7CA7E19b0164Df5''
       ''0x34d10D1Ab8204d51E5dc5dCc31b6A7B14be697c3'' 0,
     ContractAddress ''0x34d10D1Ab8204d51E5dc5dCc31b6A7B14be697c3'',
     ApproveSubmitted ''0x132aAd982184489d78420756785f9a395c14dd15''
       ''0x34d10D1Ab8204d51E5dc5dCc31b6A7B14be697c3'' 100000000 ''0xa1'',
     Finalized ''0xa1'' (example_receipt ''0xa1''),
     TokenGasEstimated ''0x132aAd982184489d78420756785f9a395c14dd15''
       [''0xad57aAcad13d86Daa8aD55f0e18B1b62377c0496''] [100000000] 120000,
     TokenBatchSubmitted ''0x132aAd982184489d78420756785f9a395c14dd15''
       [''0xad57aAcad13d86Daa8aD55f0e18B1b62377c0496''] [100000000] 132000 None ''0xb1'',
     Finalized ''0xb1'' (example_receipt ''0xb1'')])"
  by (simp add: client_defs io_defs example_defs Let_def)

text \<open>
  Claim C3, on the batch of example.js: with allowance 0 the approval for 100000000 is
  submitted and finalized before the transfer; with a token balance of 0 the group fails
  with the balance error.
\<close>

theorem token_group_authorization_order_witness:
  "follows_protocol ''0x132aAd982184489d78420756785f9a395c14dd15''
      (required_total example_token_txs) Start
      (snd (sendTokenGroup example_network example_config no_options
              ''0x132aAd982184489d78420756785f9a395c14dd15'' example_token_txs [])) \<and>
   BalanceOf ''0x132aAd982184489d78420756785f9a395c14dd15''
       ''0xe5c9D14D4d59CE293F3b5562c7CA7E19b0164Df5'' 0
     \<in> set (snd (sendTokenGroup poor_network example_config no_options
                    ''0x132aAd982184489d78420756785f9a395c14dd15'' example_token_txs [])) \<and>
   0 < required_total example_token_txs \<and>
   fst (sendTokenGroup poor_network example_config no_options
          ''0x132aAd982184489d78420756785f9a395c14dd15'' example_token_txs []) =
     Inl (InsufficientTokenBalance ''0x132aAd982184489d78420756785f9a395c14dd15'') \<and>
   approvals_finalized_first []
     (snd (sendBatchTransaction example_network example_config no_options example_batch [])) \<and>
   ApproveSubmitted ''0x132aAd982184489d78420756785f9a395c14dd15''
       ''0x34d10D1Ab8204d51E5dc5dCc31b6A7B14be697c3'' 100000000 ''0xa1''
     \<in> set (snd (sendBatchTransaction example_network example_config no_options example_batch []))"
proof -
  let ?T = "''0x132aAd982184489d78420756785f9a395c14dd15''"
  note good = token_group_authorization_order
    [where net = example_network and cfg = example_config and opts = no_options and t = ?T
       and tokenTxs = example_token_txs and h = "[]" and s = example_batch and h' = "[]"
       and r = "fst (sendTokenGroup example_network example_config no_options ?T example_token_txs [])"
       and n = "snd (sendTokenGroup example_network example_config no_options ?T example_token_txs [])"
       and r' = "fst (sendBatchTransaction example_network example_config no_options example_batch [])"
       and n' = "snd (sendBatchTransaction example_network example_config no_options example_batch [])"]
  note poor = token_group_authorization_order
    [where net = poor_network and cfg = example_config and opts = no_options and t = ?T
       and tokenTxs = example_token_txs and h = "[]" and s = example_batch and h' = "[]"
       and r = "fst (sendTokenGroup poor_network example_config no_options ?T example_token_txs [])"
       and n = "snd (sendTokenGroup poor_network example_config no_options ?T example_token_txs [])"
       and r' = "fst (sendBatchTransaction example_network example_config no_options example_batch [])"
       and n' = "snd (sendBatchTransaction example_network example_config no_options example_batch [])"]
  have low: "BalanceOf ?T ''0xe5c9D14D4d59CE293F3b5562c7CA7E19b0164Df5'' 0
       \<in> set (snd (sendTokenGroup poor_network example_config no_options ?T example_token_txs []))"
    by (simp add: poor_group_run)
  have pos: "0 < required_total example_token_txs"
    by (simp add: required_total_def example_token_txs_def)
  have sub: "ApproveSubmitted ?T ''0x34d10D1Ab8204d51E5dc5dCc31b6A7B14be697c3'' 100000000 ''0xa1''
       \<in> set (snd (sendBatchTransaction example_network example_config no_options example_batch []))"
    by (simp add: example_batch_run)
  from good have "follows_protocol ?T (required_total example_token_txs) Start
      (snd (sendTokenGroup example_network example_config no_options ?T example_token_txs []))"
    and "approvals_finalized_first []
      (snd (sendBatchTransaction example_network example_config no_options example_batch []))"
    by simp_all
  moreover from poor low pos
  have "fst (sendTokenGroup poor_network example_config no_options ?T example_token_txs []) =
      Inl (InsufficientTokenBalance ?T)"
    by (simp only: prod.collapse)
  ultimately show ?thesis using low pos sub by blast
qed

text \<open>
  Claim C9 as amended, on the empty batch and on the batch of example.js, with a node and a
  configuration for which the connection is available.
\<close>

theorem empty_batch_rejected_after_connection_witness:
  "batch_size no_transactions = 0 \<and>
   fst (getConnection example_network example_config []) = Inr () \<and>
   fst (estimateGas example_ethers example_network example_config no_options no_transactions [])
     = Inl NoTransactionsToEstimate \<and>
   fst (sendBatchTransaction example_network example_config no_options no_transactions [])
     = Inl NoTransactionsToSend \<and>
   batch_size example_batch \<noteq> 0 \<and>
   fst (estimateGas example_ethers example_network example_config no_options example_batch [])
     \<noteq> Inl NoTransactionsToEstimate \<and>
   fst (sendBatchTransaction example_network example_config no_options example_batch [])
     \<noteq> Inl NoTransactionsToSend"
proof -
  have e: "batch_size no_transactions = 0"
    by (simp add: batch_size_def no_transactions_def)
  have c: "fst (getConnection example_network example_config []) = Inr ()"
    by (simp add: getConnection_def initializeConnection_def falsy_def io_defs example_defs)
  have ne: "batch_size example_batch \<noteq> 0"
    by (simp add: batch_size_def example_batch_def example_token_txs_def)
  note empty = empty_batch_rejected_after_connection
    [where s = no_transactions and L = example_ethers and net = example_network
       and cfg = example_config and opts = no_options and h = "[]"]
  note full = empty_batch_rejected_after_connection
    [where s = example_batch and L = example_ethers and net = example_network
       and cfg = example_config and opts = no_options and h = "[]"]
  from empty e c full ne show ?thesis by blast
qed

lemma within_budget_Nil [simp]: "within_budget opts []"
  by (simp add: within_budget_def)

lemma budget_ok_mono:
  "budget_ok opts n e \<Longrightarrow> set n \<subseteq> set n' \<Longrightarrow> budget_ok opts n' e"
  by (cases e) (auto simp: budget_ok_def)

lemma within_budget_append:
  "within_budget opts a \<Longrightarrow> within_budget opts b \<Longrightarrow> within_budget opts (a @ b)"
  unfolding within_budget_def list_all_iff
  by (auto intro: budget_ok_mono)

lemma budget_ok_quiet: "\<not> is_batch_submission e \<Longrightarrow> budget_ok opts n e"
  by (cases e) (simp_all add: budget_ok_def is_batch_submission_def)

lemma within_budget_quiet:
  "list_all (\<lambda>e. \<not> is_batch_submission e) n \<Longrightarrow> within_budget opts n"
  by (auto simp: within_budget_def list_all_iff intro: budget_ok_quiet)

lemma budgetedI:
  assumes "\<And>h r n. m h = (r, n) \<Longrightarrow> within_budget opts n"
  shows "budgeted opts m"
  using assms by (auto simp: budgeted_def)

lemma budgetedD: "budgeted opts m \<Longrightarrow> m h = (r, n) \<Longrightarrow> within_budget opts n"
  by (auto simp: budgeted_def)

lemma budgeted_quiet:
  assumes "emits (\<lambda>e. \<not> is_batch_submission e) m"
  shows "budgeted opts m"
  by (rule budgetedI) (auto dest: emitsD [OF assms] intro: within_budget_quiet)

lemma budgeted_return: "budgeted opts (io_return x)"
  by (simp add: budgeted_def)

lemma budgeted_throw: "budgeted opts (io_throw e)"
  by (simp add: budgeted_def)

lemma budgeted_bind:
  assumes "budgeted opts m" "\<And>x. budgeted opts (f x)"
  shows "budgeted opts (io_bind m f)"
  by (rule budgetedI)
     (auto elim!: io_bindE dest: budgetedD [OF assms(1)] budgetedD [OF assms(2)]
           intro: within_budget_append)

lemma budgeted_catch:
  assumes "budgeted opts m"
  shows "budgeted opts (io_catch wrap m)"
  by (rule budgetedI) (auto elim!: io_catchE dest: budgetedD [OF assms])

lemma budgeted_if:
  assumes "c \<Longrightarrow> budgeted opts a" "\<not> c \<Longrightarrow> budgeted opts b"
  shows "budgeted opts (if c then a else b)"
  using assms by simp

lemma budgeted_sendEthGroup: "budgeted opts (sendEthGroup net opts txs)"
  by (rule budgetedI)
     (auto simp: sendEthGroup_def Let_def within_budget_def budget_ok_def
           elim!: io_bindE performE split: option.splits)

lemma emits_quiet_checkAndApproveToken:
  "emits (\<lambda>e. \<not> is_batch_submission e) (checkAndApproveToken net cfg t tokenTxs)"
  unfolding checkAndApproveToken_def Let_def
  by (intro emits_intros emits_perform emits_getConnection)
     (simp_all add: is_batch_submission_def)

lemma budgeted_token_chain:
  "budgeted opts
     (io_bind (case token_override opts t of
                 Some g \<Rightarrow> io_return g
               | None \<Rightarrow>
                   io_bind (perform (\<lambda>h. rpc_estimateGasToken net h t rs as)
                              (TokenGasEstimated t rs as))
                     (\<lambda>tokenGasEstimate. io_return ((tokenGasEstimate * 110) div 100)))
        (\<lambda>gasLimit.
      io_bind (perform (\<lambda>h. rpc_multiSendToken net h t rs as gasLimit gp)
                 (TokenBatchSubmitted t rs as gasLimit gp))
        (\<lambda>tokenTx.
      io_bind (perform (\<lambda>h. rpc_wait net h tokenTx) (Finalized tokenTx)) (\<lambda>tokenReceipt.
      io_return (receipt_of tokenReceipt k)))))"
  by (rule budgetedI)
     (auto simp: within_budget_def budget_ok_def elim!: io_bindE performE split: option.splits)

lemma budgeted_sendTokenGroup: "budgeted opts (sendTokenGroup net cfg opts t tokenTxs)"
  unfolding sendTokenGroup_def Let_def token_override_def [symmetric]
  by (intro budgeted_bind budgeted_quiet emits_quiet_checkAndApproveToken budgeted_token_chain)

lemma budgeted_sendTokenGroups: "budgeted opts (sendTokenGroups net cfg opts gs acc)"
proof (induction gs arbitrary: acc)
  case Nil
  then show ?case by (simp add: budgeted_return)
next
  case (Cons g gs)
  obtain t tokenTxs where g: "g = (t, tokenTxs)" by (cases g)
  show ?case unfolding g sendTokenGroups.simps
    by (intro budgeted_if budgeted_bind budgeted_sendTokenGroup Cons.IH)
qed

lemma budgeted_getConnection: "budgeted opts (getConnection net cfg)"
  by (intro budgeted_quiet emits_getConnection) (simp_all add: is_batch_submission_def)

lemma budgeted_sendBatchTransaction: "budgeted opts (sendBatchTransaction net cfg opts s)"
  unfolding sendBatchTransaction_def Let_def
  by (intro budgeted_if budgeted_catch budgeted_bind budgeted_getConnection
        budgeted_sendEthGroup budgeted_sendTokenGroups budgeted_return budgeted_throw)

lemma estimateGas_buffer:
  assumes "estimateGas L net cfg opts s h = (Inr res, n)" "est_eth res = Some g"
  shows "gasWithBuffer g = (gasEstimate g * 110) div 100"
  using assms unfolding estimateGas_def Let_def
  by (auto elim!: io_bindE io_catchE performE split: if_splits option.splits)

lemma neg_div_10: "- (- (a::int) div 10) = a div 10 + (if 10 dvd a then 0 else 1)"
  by presburger

lemma dvd_times_11: "(10::int) dvd C * 11 \<longleftrightarrow> 10 dvd C"
  by presburger

lemma ceiling_margin:
  "cost_with_margin_spec c = \<lfloor>real c * (110 / 100)\<rfloor> + (if 10 dvd c then 0 else 1)"
proof -
  have x: "real c * (110 / 100) = of_int (int c * 11) / of_int 10" by simp
  have c: "\<lceil>real c * (110 / 100)\<rceil> = - (- (int c * 11) div 10)"
    unfolding x by (rule ceiling_divide_eq_div)
  have f: "\<lfloor>real c * (110 / 100)\<rfloor> = (int c * 11) div 10"
    unfolding x by (rule floor_divide_of_int_eq)
  have d: "(10::nat) dvd c \<longleftrightarrow> (10::int) dvd int c * 11"
    unfolding dvd_times_11 by presburger
  show ?thesis unfolding cost_with_margin_spec_def c f d by (rule neg_div_10)
qed

text \<open>
  Claim C4, as the code has it. The margin is computed in integer arithmetic,
  \<open>(estimate * 110) / 100\<close> on BigInt, which rounds down: the \<open>gasWithBuffer\<close> figure of
  \<open>estimateGas\<close>, and the gas limit of every native or token batch that
  \<open>sendBatchTransaction\<close> submits without an override from the caller, equal the floor of
  the simulated cost times 1.10. The ceiling of the specification is the same number when
  the simulated cost is a multiple of 10 and one more otherwise.
\<close>

theorem gas_margin_rounds_down:
  "(estimateGas L net cfg opts s h = (Inr res, n) \<and> est_eth res = Some g \<longrightarrow>
      int (gasWithBuffer g) = \<lfloor>real (gasEstimate g) * (110 / 100)\<rfloor>)
   \<and> (sendBatchTransaction net cfg opts s h' = (r, n') \<longrightarrow>
        (\<forall>rs as v gl gp hash.
           EthBatchSubmitted rs as v gl gp hash \<in> set n' \<and> given (ethGasLimit opts) = None \<longrightarrow>
           (\<exists>est. EthGasEstimated rs as v est \<in> set n' \<and>
                  int gl = \<lfloor>real est * (110 / 100)\<rfloor>)) \<and>
        (\<forall>t rs as gl gp hash.
           TokenBatchSubmitted t rs as gl gp hash \<in> set n' \<and> token_override opts t = None \<longrightarrow>
           (\<exists>est. TokenGasEstimated t rs as est \<in> set n' \<and>
                  int gl = \<lfloor>real est * (110 / 100)\<rfloor>)))
   \<and> cost_with_margin_spec c = \<lfloor>real c * (110 / 100)\<rfloor> + (if 10 dvd c then 0 else 1)"
proof (intro conjI impI allI)
  assume "estimateGas L net cfg opts s h = (Inr res, n) \<and> est_eth res = Some g"
  then have "gasWithBuffer g = (gasEstimate g * 110) div 100"
    using estimateGas_buffer by blast
  then show "int (gasWithBuffer g) = \<lfloor>real (gasEstimate g) * (110 / 100)\<rfloor>"
    by (simp only: floor_margin)
next
  assume run: "sendBatchTransaction net cfg opts s h' = (r, n')"
  from budgetedD [OF budgeted_sendBatchTransaction run]
  have ok: "\<And>e. e \<in> set n' \<Longrightarrow> budget_ok opts n' e"
    by (simp add: within_budget_def list_all_iff)
  {
    fix rs as v gl gp hash
    assume "EthBatchSubmitted rs as v gl gp hash \<in> set n' \<and> given (ethGasLimit opts) = None"
    with ok [of "EthBatchSubmitted rs as v gl gp hash"]
    obtain est where "EthGasEstimated rs as v est \<in> set n'" "gl = (est * 110) div 100"
      by (auto simp: budget_ok_def)
    then show "\<exists>est. EthGasEstimated rs as v est \<in> set n' \<and>
                  int gl = \<lfloor>real est * (110 / 100)\<rfloor>"
      by (auto simp only: floor_margin)
  }
  {
    fix t rs as gl gp hash
    assume "TokenBatchSubmitted t rs as gl gp hash \<in> set n' \<and> token_override opts t = None"
    with ok [of "TokenBatchSubmitted t rs as gl gp hash"]
    obtain est where "TokenGasEstimated t rs as est \<in> set n'" "gl = (est * 110) div 100"
      by (auto simp: budget_ok_def)
    then show "\<exists>est. TokenGasEstimated t rs as est \<in> set n' \<and>
                  int gl = \<lfloor>real est * (110 / 100)\<rfloor>"
      by (auto simp only: floor_margin)
  }
next
  show "cost_with_margin_spec c = \<lfloor>real c * (110 / 100)\<rfloor> + (if 10 dvd c then 0 else 1)"
    by (rule ceiling_margin)
qed

text \<open>
  Claim C4 as stated fails: for the simulated cost 96394 (the figure of the README) the
  client reports and submits 106033, and \<open>ceil(96394 * 1.10)\<close> is 106034.
\<close>

theorem gas_margin_not_ceiling:
  "fst (estimateGas example_ethers example_network example_config no_options example_batch []) =
     Inr \<lparr>est_ethTransactions = 2, est_erc20Transactions = 1, est_totalTransactions = 3,
          est_eth = Some \<lparr>gasEstimate = 96394, gasWithBuffer = 106033,
                          est_totalValue = formatEther_model 60000000000000\<rparr>,
          est_gasPrice = 20000000000\<rparr> \<and>
   cost_with_margin_spec 96394 = 106034 \<and>
   EthBatchSubmitted [''0xe5c9D14D4d59CE293F3b5562c7CA7E19b0164Df5'',
                      ''0xad57aAcad13d86Daa8aD55f0e18B1b62377c0496'']
       [10000000000000, 50000000000000] 60000000000000 106033 None ''0xe1''
     \<in> set (snd (sendBatchTransaction example_network example_config no_options example_batch []))"
  by (simp add: estimate_example spec_margin_example example_batch_run)

text \<open>Claim C4 as amended, on the batch of example.js with the simulated cost 96394.\<close>

theorem gas_margin_rounds_down_witness:
  "est_eth \<lparr>est_ethTransactions = 2, est_erc20Transactions = 1, est_totalTransactions = 3,
          est_eth = Some \<lparr>gasEstimate = 96394, gasWithBuffer = 106033,
                          est_totalValue = formatEther_model 60000000000000\<rparr>,
          est_gasPrice = 20000000000\<rparr> =
     Some \<lparr>gasEstimate = 96394, gasWithBuffer = 106033,
           est_totalValue = formatEther_model 60000000000000\<rparr> \<and>
   int (gasWithBuffer \<lparr>gasEstimate = 96394, gasWithBuffer = 106033,
           est_totalValue = formatEther_model 60000000000000\<rparr>) =
     \<lfloor>real (gasEstimate \<lparr>gasEstimate = 96394, gasWithBuffer = 106033,
           est_totalValue = formatEther_model 60000000000000\<rparr>) * (110 / 100)\<rfloor> \<and>
   given (ethGasLimit no_options) = None \<and>
   (\<exists>est. EthGasEstimated [''0xe5c9D14D4d59CE293F3b5562c7CA7E19b0164Df5'',
                           ''0xad57aAcad13d86Daa8aD55f0e18B1b62377c0496'']
             [10000000000000, 50000000000000] 60000000000000 est
           \<in> set (snd (sendBatchTransaction example_network example_config no_options
                          example_batch [])) \<and>
          int 106033 = \<lfloor>real est * (110 / 100)\<rfloor>)"
proof -
  let ?g = "\<lparr>gasEstimate = 96394, gasWithBuffer = 106033,
           est_totalValue = formatEther_model 60000000000000\<rparr>"
  let ?res = "\<lparr>est_ethTransactions = 2, est_erc20Transactions = 1, est_totalTransactions = 3,
          est_eth = Some ?g, est_gasPrice = 20000000000\<rparr>"
  let ?n = "[Connected, FeeData (Some 20000000000),
       EthGasEstimated [''0xe5c9D14D4d59CE293F3b5562c7CA7E19b0164Df5'',
                        ''0xad57aAcad13d86Daa8aD55f0e18B1b62377c0496'']
         [10000000000000, 50000000000000] 60000000000000 96394]"
  note inst = gas_margin_rounds_down
    [where L = example_ethers and net = example_network and cfg = example_config
       and opts = no_options and s = example_batch and h = "[]" and h' = "[]"
       and res = ?res and n = ?n and g = ?g
       and r = "fst (sendBatchTransaction example_network example_config no_options example_batch [])"
       and n' = "snd (sendBatchTransaction example_network example_config no_options example_batch [])"]
  have run: "estimateGas example_ethers example_network example_config no_options example_batch []
      = (Inr ?res, ?n)"
    by (rule estimate_example)
  have sel: "est_eth ?res = Some ?g" by simp
  have sub: "EthBatchSubmitted [''0xe5c9D14D4d59CE293F3b5562c7CA7E19b0164Df5'',
                      ''0xad57aAcad13d86Daa8aD55f0e18B1b62377c0496'']
       [10000000000000, 50000000000000] 60000000000000 106033 None ''0xe1''
     \<in> set (snd (sendBatchTransaction example_network example_config no_options example_batch []))"
    by (simp add: example_batch_run)
  have no: "given (ethGasLimit no_options) = None"
    by (simp add: given_def no_options_def)
  from inst run sel
  have a: "int (gasWithBuffer ?g) = \<lfloor>real (gasEstimate ?g) * (110 / 100)\<rfloor>"
    by blast
  from inst sub no
  have b: "\<exists>est. EthGasEstimated [''0xe5c9D14D4d59CE293F3b5562c7CA7E19b0164Df5'',
                           ''0xad57aAcad13d86Daa8aD55f0e18B1b62377c0496'']
             [10000000000000, 50000000000000] 60000000000000 est
           \<in> set (snd (sendBatchTransaction example_network example_config no_options
                          example_batch [])) \<and>
          int 106033 = \<lfloor>real est * (110 / 100)\<rfloor>"
    by (simp only: prod.collapse)
  from sel a no b show ?thesis by blast
qed

lemma finalized_receipts_append:
  "finalized_receipts (a @ b) = finalized_receipts a @ finalized_receipts b"
  by (induction a rule: finalized_receipts.induct) simp_all

lemma sendTokenGroups_fails_at:
  assumes "sendTokenGroups net cfg opts done acc h = (Inr acc', n2)"
    and "tokenTxs \<noteq> []"
    and "sendTokenGroup net cfg opts t tokenTxs (h @ n2) = (Inl e, n3)"
  shows "sendTokenGroups net cfg opts (done @ (t, tokenTxs) # rest) acc h = (Inl e, n2 @ n3)"
  using assms
proof (induction "done" arbitrary: acc h n2)
  case Nil
  then show ?case by (simp add: io_bind_def)
next
  case (Cons g gs)
  obtain t0 txs0 where g: "g = (t0, txs0)" by (cases g)
  show ?case
  proof (cases "txs0 = []")
    case True
    with Cons.prems g have "sendTokenGroups net cfg opts gs acc h = (Inr acc', n2)" by simp
    from Cons.IH [OF this Cons.prems(2,3)] True g show ?thesis by simp
  next
    case False
    with Cons.prems(1) g
    have "io_bind (sendTokenGroup net cfg opts t0 txs0)
            (\<lambda>r. sendTokenGroups net cfg opts gs (assign t0 r acc)) h = (Inr acc', n2)"
      by simp
    then obtain x na nb where
      first: "sendTokenGroup net cfg opts t0 txs0 h = (Inr x, na)"
      and others: "sendTokenGroups net cfg opts gs (assign t0 x acc) (h @ na) = (Inr acc', nb)"
      and n2: "n2 = na @ nb"
      by (cases rule: io_bindE) auto
    from Cons.prems(3) n2
    have "sendTokenGroup net cfg opts t tokenTxs ((h @ na) @ nb) = (Inl e, n3)" by simp
    from Cons.IH [OF others Cons.prems(2) this]
    have "sendTokenGroups net cfg opts (gs @ (t, tokenTxs) # rest) (assign t0 x acc) (h @ na)
            = (Inl e, nb @ n3)" .
    with first False g n2 show ?thesis by (simp add: io_bind_def)
  qed
qed

text \<open>
  Claim C1, as the code has it. Suppose the connection is available, the native group (if
  any) has been submitted and finalized, the token groups \<open>done\<close> have been processed, and
  the next token group fails with the error \<open>e\<close>. Then \<open>sendBatchTransaction\<close> throws
  \<open>Failed to send batch transaction: e\<close> and nothing else reaches the caller: neither the
  native receipt nor the token receipts gathered so far are part of the outcome. The
  history keeps every submission and finalization of the earlier groups, followed only by
  the calls of the failing group: nothing is rolled back and no later group is attempted.
\<close>

theorem later_failure_drops_receipts_keeps_transactions:
  assumes conn: "getConnection net cfg h = (Inr (), n0)"
    and native: "(eth s = [] \<and> n1 = []) \<or>
       (eth s \<noteq> [] \<and> (\<exists>ethReceipt. sendEthGroup net opts (eth s) (h @ n0) = (Inr ethReceipt, n1)))"
    and groups: "erc20 s = done @ (t, tokenTxs) # rest" "tokenTxs \<noteq> []"
    and earlier: "sendTokenGroups net cfg opts done [] (h @ n0 @ n1) = (Inr tokenReceipts, n2)"
    and failing: "sendTokenGroup net cfg opts t tokenTxs (h @ n0 @ n1 @ n2) = (Inl e, n3)"
  shows "sendBatchTransaction net cfg opts s h = (Inl (FailedToSend e), n0 @ n1 @ n2 @ n3) \<and>
         finalized_receipts (n0 @ n1 @ n2 @ n3) =
           finalized_receipts n1 @ finalized_receipts n2 @ finalized_receipts n3"
proof -
  from failing have "sendTokenGroup net cfg opts t tokenTxs ((h @ n0 @ n1) @ n2) = (Inl e, n3)"
    by simp
  from sendTokenGroups_fails_at [OF earlier groups(2) this]
  have loop: "sendTokenGroups net cfg opts (erc20 s) [] (h @ n0 @ n1) = (Inl e, n2 @ n3)"
    by (simp add: groups(1))
  have size: "foldl (\<lambda>c (tokenAddress, tokenTxs). c + length tokenTxs) (length (eth s)) (erc20 s) \<noteq> 0"
    using groups by (simp add: foldl_group_count)
  have quiet: "finalized_receipts n0 = []"
    using conn by (cases rule: getConnectionE) auto
  from native have run: "sendBatchTransaction net cfg opts s h = (Inl (FailedToSend e), n0 @ n1 @ n2 @ n3)"
  proof
    assume "eth s = [] \<and> n1 = []"
    with conn loop size show ?thesis
      by (simp add: sendBatchTransaction_def io_bind_def io_catch_def io_return_def Let_def)
  next
    assume "eth s \<noteq> [] \<and> (\<exists>ethReceipt. sendEthGroup net opts (eth s) (h @ n0) = (Inr ethReceipt, n1))"
    with conn loop size show ?thesis
      by (auto simp: sendBatchTransaction_def io_bind_def io_catch_def io_return_def Let_def)
  qed
  with quiet show ?thesis by (simp add: finalized_receipts_append)
qed

lemma poor_batch_run:
  "sendBatchTransaction poor_network example_config no_options example_batch [] =
   (Inl (FailedToSend (InsufficientTokenBalance ''0x132aAd982184489d78420756785f9a395c14dd15'')),
    [Connected,
     EthGasEstimated [''0xe5c9D14D4d59CE293F3b5562c7CA7E19b0164Df5'',
                      ''0xad57aAcad13d86Daa8aD55f0e18B1b62377c0496'']
       [10000000000000, 50000000000000] 60000000000000 96394,
     EthBatchSubmitted [''0xe5c9D14D4d59CE293F3b5562c7CA7E19b0164Df5'',
                        ''0xad57aAcad13d86Daa8aD55f0e18B1b62377c0496'']
       [10000000000000, 50000000000000] 60000000000000 106033 None ''0xe1'',
     Finalized ''0xe1'' (example_receipt ''0xe1''),
     SignerAddress ''0xe5c9D14D4d59CE293F3b5562c7CA7E19b0164Df5'',
     BalanceOf ''0x132aAd982184489d78420756785f9a395c14dd15''
       ''0xe5c9D14D4d59CE293F3b5562c7CA7E19b0164Df5'' 0])"
  by (simp add: client_defs io_defs example_defs Let_def)

lemma other_poor_batch_run:
  "sendBatchTransaction other_poor_network example_config no_options example_batch [] =
   (Inl (FailedToSend (InsufficientTokenBalance ''0x132aAd982184489d78420756785f9a395c14dd15'')),
    [Connected,
     EthGasEstimated [''0xe5c9D14D4d59CE293F3b5562c7CA7E19b0164Df5'',
                      ''0xad57aAcad13d86Daa8aD55f0e18B1b62377c0496'']
       [10000000000000, 50000000000000] 60000000000000 96394,
     EthBatchSubmitted [''0xe5c9D14D4d59CE293F3b5562c7CA7E19b0164Df5'',
                        ''0xad57aAcad13d86Daa8aD55f0e18B1b62377c0496'']
       [10000000000000, 50000000000000] 60000000000000 106033 None ''0xe2'',
     Finalized ''0xe2'' (example_receipt ''0xe2''),
     SignerAddress ''0xe5c9D14D4d59CE293F3b5562c7CA7E19b0164Df5'',
     BalanceOf ''0x132aAd982184489d78420756785f9a395c14dd15''
       ''0xe5c9D14D4d59CE293F3b5562c7CA7E19b0164Df5'' 0])"
  by (simp add: client_defs io_defs example_defs Let_def)

text \<open>
  Claim C1 as stated fails: on two nodes that finalize the native group with different
  receipts and then report an empty token balance, the caller gets the very same error, so
  the receipt of the finalized native group cannot be recovered from the failure.
\<close>

theorem partial_receipts_not_communicated:
  "fst (sendBatchTransaction poor_network example_config no_options example_batch []) =
     Inl (FailedToSend (InsufficientTokenBalance ''0x132aAd982184489d78420756785f9a395c14dd15'')) \<and>
   fst (sendBatchTransaction other_poor_network example_config no_options example_batch []) =
     Inl (FailedToSend (InsufficientTokenBalance ''0x132aAd982184489d78420756785f9a395c14dd15'')) \<and>
   finalized_receipts
     (snd (sendBatchTransaction poor_network example_config no_options example_batch [])) =
     [(''0xe1'', example_receipt ''0xe1'')] \<and>
   finalized_receipts
     (snd (sendBatchTransaction other_poor_network example_config no_options example_batch [])) =
     [(''0xe2'', example_receipt ''0xe2'')] \<and>
   example_receipt ''0xe1'' \<noteq> example_receipt ''0xe2''"
  by (simp add: poor_batch_run other_poor_batch_run example_receipt_def)

text \<open>Claim C1 as amended, on the batch of example.js against the node with an empty token
  balance: the native group is finalized, the token group fails.\<close>

theorem later_failure_drops_receipts_keeps_transactions_witness:
  "sendBatchTransaction poor_network example_config no_options example_batch [] =
     (Inl (FailedToSend (InsufficientTokenBalance ''0x132aAd982184489d78420756785f9a395c14dd15'')),
      [Connected] @
      [EthGasEstimated [''0xe5c9D14D4d59CE293F3b5562c7CA7E19b0164Df5'',
                        ''0xad57aAcad13d86Daa8aD55f0e18B1b62377c0496'']
         [10000000000000, 50000000000000] 60000000000000 96394,
       EthBatchSubmitted [''0xe5c9D14D4d59CE293F3b5562c7CA7E19b0164Df5'',
                          ''0xad57aAcad13d86Daa8aD55f0e18B1b62377c0496'']
         [10000000000000, 50000000000000] 60000000000000 106033 None ''0xe1'',
       Finalized ''0xe1'' (example_receipt ''0xe1'')] @ [] @
      [SignerAddress ''0xe5c9D14D4d59CE293F3b5562c7CA7E19b0164Df5'',
       BalanceOf ''0x132aAd982184489d78420756785f9a395c14dd15''
         ''0xe5c9D14D4d59CE293F3b5562c7CA7E19b0164Df5'' 0]) \<and>
   finalized_receipts
     (snd (sendBatchTransaction poor_network example_config no_options example_batch [])) =
     [(''0xe1'', example_receipt ''0xe1'')]"
proof -
  let ?T = "''0x132aAd982184489d78420756785f9a395c14dd15''"
  let ?n1 = "[EthGasEstimated [''0xe5c9D14D4d59CE293F3b5562c7CA7E19b0164Df5'',
                        ''0xad57aAcad13d86Daa8aD55f0e18B1b62377c0496'']
         [10000000000000, 50000000000000] 60000000000000 96394,
       EthBatchSubmitted [''0xe5c9D14D4d59CE293F3b5562c7CA7E19b0164Df5'',
                          ''0xad57aAcad13d86Daa8aD55f0e18B1b62377c0496'']
         [10000000000000, 50000000000000] 60000000000000 106033 None ''0xe1'',
       Finalized ''0xe1'' (example_receipt ''0xe1'')]"
  let ?n3 = "[SignerAddress ''0xe5c9D14D4d59CE293F3b5562c7CA7E19b0164Df5'',
       BalanceOf ?T ''0xe5c9D14D4d59CE293F3b5562c7CA7E19b0164Df5'' 0]"
  have conn: "getConnection poor_network example_config [] = (Inr (), [Connected])"
    by (simp add: client_defs io_defs example_defs)
  have native: "(eth example_batch = [] \<and> ?n1 = []) \<or>
       (eth example_batch \<noteq> [] \<and>
        (\<exists>ethReceipt. sendEthGroup poor_network no_options (eth example_batch) ([] @ [Connected])
           = (Inr ethReceipt, ?n1)))"
    by (simp add: client_defs io_defs example_defs Let_def)
  have groups: "erc20 example_batch = [] @ (?T, example_token_txs) # []" "example_token_txs \<noteq> []"
    by (simp_all add: example_batch_def example_token_txs_def)
  have earlier: "sendTokenGroups poor_network example_config no_options [] []
       ([] @ [Connected] @ ?n1) = (Inr [], [])"
    by simp
  have failing: "sendTokenGroup poor_network example_config no_options ?T example_token_txs
       ([] @ [Connected] @ ?n1 @ []) = (Inl (InsufficientTokenBalance ?T), ?n3)"
    by (simp add: client_defs io_defs example_defs Let_def)
  from later_failure_drops_receipts_keeps_transactions
    [OF conn native groups earlier failing]
  show ?thesis by simp
qed

end
